theory Spec2Isabelle
  imports Main "HOL-Library.Sublist"
begin

section \<open>Python values used by \<open>mailingset/service.py\<close>\<close>

text \<open>
  The service talks to Twisted, which hands over addresses as \<open>bytes\<close>, and to
  \<open>ConfigParser\<close> and the resolver, which work on \<open>str\<close>. Both are modelled as HOL
  strings (a \<open>str\<close> by its UTF-8 encoding, so that \<open>encode()\<close> is the identity and
  \<open>decode()\<close> is a validity check); \<open>pystr\<close> keeps the distinction where the source
  formats a value with \<open>%s\<close> or tests \<open>isinstance(x, bytes)\<close>.
\<close>

datatype pystr = PyStr string | PyBytes string

record user =
  dest_local :: string
  dest_domain :: string

datatype exn =
    SMTPBadSender pystr
  | SMTPBadRcpt user string
  | SyntaxError string
  | UnicodeError
  | UnicodeDecodeError
  | UnicodeEncodeError
  | ValueError
  | AddrFormatError
  | AddressError
  | TypeError
  | NoSectionError string
  | NoOptionError string string
  | AttributeError

text \<open>
  An exception is a value. \<open>SyntaxError\<close> carries \<open>str(error)\<close>, the message the resolver
  raised it with; \<open>SMTPBadRcpt\<close> carries the recipient and its \<open>resp\<close>, \<open>SMTPBadSender\<close> the
  client address; \<open>AddressError\<close> is Twisted's, \<open>AddrFormatError\<close> is \<open>netaddr\<close>'s. In \<open>except (UnicodeError, ValueError)\<close>, \<open>UnicodeError\<close> and its
  subclasses are \<open>ValueError\<close>s.
\<close>

fun is_ValueError :: "exn \<Rightarrow> bool" where
  "is_ValueError UnicodeError = True"
| "is_ValueError UnicodeDecodeError = True"
| "is_ValueError UnicodeEncodeError = True"
| "is_ValueError ValueError = True"
| "is_ValueError _ = False"

subsection \<open>\<open>str.split(sep)\<close> for a one-character separator\<close>

fun split_on :: "char \<Rightarrow> string \<Rightarrow> string list" where
  "split_on c [] = [[]]"
| "split_on c (x # xs) =
     (if x = c then [] # split_on c xs
      else (case split_on c xs of
              [] \<Rightarrow> [[x]]
            | w # ws \<Rightarrow> (x # w) # ws))"

subsection \<open>\<open>'%s' % (x,)\<close>\<close>

definition hex_digit :: "nat \<Rightarrow> char" where
  "hex_digit n = ''0123456789abcdef'' ! (n mod 16)"

text \<open>One byte of \<open>repr(bytes)\<close>, for the quote character \<open>q\<close> chosen by the repr.\<close>

definition bytes_repr_char :: "char \<Rightarrow> char \<Rightarrow> string" where
  "bytes_repr_char q c =
     (let n = (of_char c :: nat) in
      if c = q \<or> c = CHR 0x5C then [CHR 0x5C, c]
      else if n = 9 then [CHR 0x5C, CHR ''t'']
      else if n = 10 then [CHR 0x5C, CHR ''n'']
      else if n = 13 then [CHR 0x5C, CHR ''r'']
      else if n < 32 \<or> 127 \<le> n then [CHR 0x5C, CHR ''x'', hex_digit (n div 16), hex_digit n]
      else [c])"

definition bytes_repr :: "string \<Rightarrow> string" where
  "bytes_repr b =
     (let q = (if CHR 0x27 \<in> set b \<and> CHR 0x22 \<notin> set b then CHR 0x22 else CHR 0x27)
      in CHR ''b'' # q # concat (map (bytes_repr_char q) b) @ [q])"

text \<open>Under Python 3 a \<open>str\<close> is inserted as it is and \<open>bytes\<close> by their repr.\<close>

fun py_format :: "pystr \<Rightarrow> string" where
  "py_format (PyStr s) = s"
| "py_format (PyBytes b) = bytes_repr b"

subsection \<open>\<open>bytes.decode()\<close>: UTF-8\<close>

fun utf8_valid :: "nat list \<Rightarrow> bool" where
  "utf8_valid [] = True"
| "utf8_valid (b # bs) =
    (if b < 0x80 then utf8_valid bs
     else if 0xC2 \<le> b \<and> b \<le> 0xDF then
       (case bs of
          c1 # r \<Rightarrow> 0x80 \<le> c1 \<and> c1 \<le> 0xBF \<and> utf8_valid r
        | _ \<Rightarrow> False)
     else if 0xE0 \<le> b \<and> b \<le> 0xEF then
       (case bs of
          c1 # c2 # r \<Rightarrow>
            (if b = 0xE0 then 0xA0 else 0x80) \<le> c1 \<and>
            c1 \<le> (if b = 0xED then 0x9F else 0xBF) \<and>
            0x80 \<le> c2 \<and> c2 \<le> 0xBF \<and> utf8_valid r
        | _ \<Rightarrow> False)
     else if 0xF0 \<le> b \<and> b \<le> 0xF4 then
       (case bs of
          c1 # c2 # c3 # r \<Rightarrow>
            (if b = 0xF0 then 0x90 else 0x80) \<le> c1 \<and>
            c1 \<le> (if b = 0xF4 then 0x8F else 0xBF) \<and>
            0x80 \<le> c2 \<and> c2 \<le> 0xBF \<and>
            0x80 \<le> c3 \<and> c3 \<le> 0xBF \<and> utf8_valid r
        | _ \<Rightarrow> False)
     else False)"

definition decode :: "string \<Rightarrow> exn + string" where
  "decode b = (if utf8_valid (map of_char b) then Inr b else Inl UnicodeDecodeError)"

subsection \<open>\<open>int(s)\<close> on ASCII text\<close>

definition is_digit :: "char \<Rightarrow> bool" where
  "is_digit c = (48 \<le> (of_char c :: nat) \<and> (of_char c :: nat) \<le> 57)"

definition dec_val :: "string \<Rightarrow> int option" where
  "dec_val s =
     (if s \<noteq> [] \<and> list_all is_digit s
      then Some (foldl (\<lambda>a c. 10 * a + (of_char c - 48)) 0 s)
      else None)"

definition is_space :: "char \<Rightarrow> bool" where
  "is_space c =
     (let n = (of_char c :: nat) in (9 \<le> n \<and> n \<le> 13) \<or> (28 \<le> n \<and> n \<le> 32))"

definition strip :: "string \<Rightarrow> string" where
  "strip s = rev (dropWhile is_space (rev (dropWhile is_space s)))"

definition py_int :: "string \<Rightarrow> exn + int" where
  "py_int s =
     (let t = strip s;
          neg = (t \<noteq> [] \<and> hd t = CHR ''-'');
          body = (if t \<noteq> [] \<and> (hd t = CHR ''-'' \<or> hd t = CHR ''+'') then tl t else t);
          groups = split_on CHR ''_'' body
      in if list_all (\<lambda>g. g \<noteq> [] \<and> list_all is_digit g) groups
         then (case dec_val (concat groups) of
                 None \<Rightarrow> Inl ValueError
               | Some n \<Rightarrow> Inr (if neg then - n else n))
         else Inl ValueError)"

section \<open>\<open>ConfigParser\<close>\<close>

text \<open>
  The configuration is read-only while the service runs: a map from section names to
  maps from option names to the values \<open>get\<close> returns.
\<close>

type_synonym config = "string \<rightharpoonup> (string \<rightharpoonup> string)"

definition config_get :: "config \<Rightarrow> string \<Rightarrow> string \<Rightarrow> exn + string" where
  "config_get cfg section option =
     (case cfg section of
        None \<Rightarrow> Inl (NoSectionError section)
      | Some opts \<Rightarrow>
          (case opts option of
             None \<Rightarrow> Inl (NoOptionError option section)
           | Some v \<Rightarrow> Inr v))"

definition config_get_fallback :: "config \<Rightarrow> string \<Rightarrow> string \<Rightarrow> string \<Rightarrow> string" where
  "config_get_fallback cfg section option fallback =
     (case config_get cfg section option of Inl _ \<Rightarrow> fallback | Inr v \<Rightarrow> v)"

definition config_has_option :: "config \<Rightarrow> string \<Rightarrow> string \<Rightarrow> bool" where
  "config_has_option cfg section option =
     (case cfg section of None \<Rightarrow> False | Some opts \<Rightarrow> opts option \<noteq> None)"

definition config_getint :: "config \<Rightarrow> string \<Rightarrow> string \<Rightarrow> exn + int" where
  "config_getint cfg section option =
     (case config_get cfg section option of Inl e \<Rightarrow> Inl e | Inr v \<Rightarrow> py_int v)"

section \<open>The libraries behind sender validation\<close>

text \<open>
  \<open>netaddr\<close> and Twisted are libraries, not code of this repository. \<open>netaddr\<close> keeps an
  address as its IP version and an unbounded integer, and a network as an address with a
  prefix length; what text it reads as which address or network is left open: the
  service is modelled for every behaviour of the readers, which are the fields of
  \<open>libraries\<close>. So is the reader of \<open>twisted.mail.smtp.Address\<close>, which the constructor of
  \<open>SMTPBadSender\<close> applies to its argument.
\<close>

datatype ip_address = Addr (ip_version: nat) (ip_value: int)

datatype ip_network = Net (net_version: nat) (net_value: int) (prefixlen: nat)

record libraries =
  netaddr_IPNetwork :: "string \<Rightarrow> exn + ip_network"
  netaddr_IPAddress :: "string \<Rightarrow> exn + ip_address"
  smtp_Address :: "pystr \<Rightarrow> exn + string \<times> string"

definition width :: "nat \<Rightarrow> nat" where
  "width v = (if v = 4 then 32 else 128)"

text \<open>\<open>IPNetwork.__contains__\<close> for an address: false across versions, else the network
  bits are compared.\<close>

definition ip_in_network :: "ip_address \<Rightarrow> ip_network \<Rightarrow> bool" where
  "ip_in_network a n =
     (if net_version n \<noteq> ip_version a then False
      else let shiftwidth = width (net_version n) - prefixlen n
           in ip_value a div 2 ^ shiftwidth = net_value n div 2 ^ shiftwidth)"

text \<open>\<open>client_ip in netaddr.IPNetwork(cidr)\<close>: the network is built first, then the text
  of the client address is interpreted.\<close>

definition client_in_cidr :: "libraries \<Rightarrow> string \<Rightarrow> string \<Rightarrow> exn + bool" where
  "client_in_cidr libs client_ip cidr =
     (case netaddr_IPNetwork libs cidr of
        Inl e \<Rightarrow> Inl e
      | Inr n \<Rightarrow>
          (case netaddr_IPAddress libs client_ip of
             Inl e \<Rightarrow> Inl e
           | Inr a \<Rightarrow> Inr (ip_in_network a n)))"

text \<open>\<open>raise smtp.SMTPBadSender(addr)\<close>: the constructor reads \<open>addr\<close> as an
  \<open>smtp.Address\<close> first, and what is raised is the reader's error when it has one.\<close>

definition raise_SMTPBadSender :: "libraries \<Rightarrow> pystr \<Rightarrow> exn" where
  "raise_SMTPBadSender libs addr =
     (case smtp_Address libs addr of
        Inl e \<Rightarrow> e
      | Inr _ \<Rightarrow> SMTPBadSender addr)"

section \<open>What the service does to the outside: the log, the outgoing mail, shared sets\<close>

text \<open>
  A Python \<open>set\<close> is an object: the resolver hands one over and the accumulator keeps a
  reference to it. The store \<open>heap\<close> maps references to the sets they denote, so that an
  in-place update is seen through every alias. \<open>log.msg\<close> and \<open>log.err\<close> append to \<open>log\<close>
  (an entry is the message's kind and its arguments), and every call of the injected
  \<open>sendmail\<close> is appended to \<open>sent\<close>.
\<close>

type_synonym helo = "pystr \<times> pystr"

type_synonym ref = nat

datatype log_entry =
    Receiving_from helo string
  | Rejecting_from helo string
  | Rejecting_domain string
  | Rejecting_address string string
  | Log_Subject "string option"
  | Sending_to "string set"
  | Connection_lost pystr
  | Success pystr
  | Failure pystr

record sendmail_call =
  sc_server :: string
  sc_envelope_sender :: string
  sc_recipients_ref :: ref
  sc_recipients :: "string set"
  sc_text :: string
  sc_port :: int

record world =
  heap :: "ref \<Rightarrow> string set"
  log :: "log_entry list"
  sent :: "sendmail_call list"

text \<open>The \<open>Deferred\<close> returned by \<open>sendmail\<close> (the index of the call in \<open>sent\<close>), with the
  continuations attached to it.\<close>

record deferred =
  d_call :: nat
  callbacks :: "log_entry list"
  errbacks :: "log_entry list"

section \<open>\<open>SetMessageDelivery.validateFrom\<close>\<close>

fun client_ip_of :: "pystr \<Rightarrow> exn + string" where
  "client_ip_of (PyBytes b) = decode b"
| "client_ip_of (PyStr s) = Inr s"

text \<open>The loop over \<open>good.split(',')\<close>.\<close>

fun validateFrom_loop :: "libraries \<Rightarrow> string list \<Rightarrow> helo \<Rightarrow> string \<Rightarrow> world \<Rightarrow> (exn + string) \<times> world" where
  "validateFrom_loop libs [] helo origin w =
     (Inl (raise_SMTPBadSender libs (snd helo)),
      w\<lparr>log := log w @ [Rejecting_from helo origin]\<rparr>)"
| "validateFrom_loop libs (cidr # rest) helo origin w =
     (case client_ip_of (snd helo) of
        Inl e \<Rightarrow> (Inl e, w)
      | Inr client_ip \<Rightarrow>
          (case client_in_cidr libs client_ip cidr of
             Inl e \<Rightarrow> (Inl e, w)
           | Inr True \<Rightarrow> (Inr origin, w\<lparr>log := log w @ [Receiving_from helo origin]\<rparr>)
           | Inr False \<Rightarrow> validateFrom_loop libs rest helo origin w))"

text \<open>\<open>good.split(',')\<close>, for \<open>good\<close> the configured allow-list or its fallback.\<close>

definition accept_from :: "config \<Rightarrow> string list" where
  "accept_from cfg =
     (let good = config_get_fallback cfg ''incoming'' ''accept_from'' ''0.0.0.0/0''
      in split_on CHR '','' good)"

definition validateFrom :: "libraries \<Rightarrow> config \<Rightarrow> helo \<Rightarrow> string \<Rightarrow> world \<Rightarrow> (exn + string) \<times> world" where
  "validateFrom libs cfg helo origin w = validateFrom_loop libs (accept_from cfg) helo origin w"

text \<open>\<open>','.join(ranges)\<close>: the text of an allow-list of several ranges.\<close>

fun comma_join :: "string list \<Rightarrow> string" where
  "comma_join [] = []"
| "comma_join [r] = r"
| "comma_join (r # rs) = r @ '','' @ comma_join rs"

section \<open>\<open>email.message.Message\<close>\<close>

text \<open>
  A message is its header list, in order, and its payload. Header names are matched
  without regard to case; \<open>msg[name] = value\<close> appends a header and \<open>del msg[name]\<close>
  removes every header of that name.
\<close>

record message =
  headers :: "(string \<times> string) list"
  payload :: string

definition lower_char :: "char \<Rightarrow> char" where
  "lower_char c =
     (let n = (of_char c :: nat) in if 65 \<le> n \<and> n \<le> 90 then char_of (n + 32) else c)"

definition lower :: "string \<Rightarrow> string" where
  "lower s = map lower_char s"

definition msg_contains :: "message \<Rightarrow> string \<Rightarrow> bool" where
  "msg_contains msg name = (lower name \<in> set (map (\<lambda>(k, v). lower k) (headers msg)))"

definition msg_getitem :: "message \<Rightarrow> string \<Rightarrow> string option" where
  "msg_getitem msg name =
     (case filter (\<lambda>(k, v). lower k = lower name) (headers msg) of
        [] \<Rightarrow> None
      | (k, v) # _ \<Rightarrow> Some v)"

text \<open>\<open>msg.get_all(name, [])\<close>: the values of every header of that name, in order.\<close>

definition msg_get_all :: "message \<Rightarrow> string \<Rightarrow> string list" where
  "msg_get_all msg name =
     map snd (filter (\<lambda>(k, v). lower k = lower name) (headers msg))"

definition msg_delitem :: "message \<Rightarrow> string \<Rightarrow> message" where
  "msg_delitem msg name =
     msg\<lparr>headers := filter (\<lambda>(k, v). lower k \<noteq> lower name) (headers msg)\<rparr>"

definition msg_setitem :: "message \<Rightarrow> string \<Rightarrow> string \<Rightarrow> message" where
  "msg_setitem msg name val = msg\<lparr>headers := headers msg @ [(name, val)]\<rparr>"

text \<open>What the service needs of the \<open>email\<close> package beyond the header list: whether a
  header value can be encoded, the message a \<open>FeedParser\<close> yields for the text fed to it,
  and the text of a message.\<close>

record email_lib =
  header_encodable :: "string \<Rightarrow> bool"
  feedparser_close :: "string \<Rightarrow> message"
  as_string :: "message \<Rightarrow> string"

section \<open>\<open>mailman.subject_prefix\<close>\<close>

text \<open>
  Modelled from the spec: \<open>SubjectPrefix().process(tag, msg)\<close> of
  \<open>mailingset/mailman/subject_prefix.py\<close>, which is not among the source files. The spec:
  prepend the bracketed tag to the Subject unless the Subject already starts with that
  exact bracketed tag; the encoding of the new value can fail, and then the Subject is
  kept. The tag arrives with its brackets and trailing blank. A message without a
  Subject is taken as one with an empty Subject; the spec is silent on it.
\<close>

definition SubjectPrefix_process :: "(string \<Rightarrow> bool) \<Rightarrow> string \<Rightarrow> message \<Rightarrow> exn + message" where
  "SubjectPrefix_process encodable tag msg =
     (let subject = (case msg_getitem msg ''subject'' of None \<Rightarrow> [] | Some s \<Rightarrow> s)
      in if prefix tag subject then Inr msg
         else if encodable (tag @ subject)
         then Inr (msg_setitem (msg_delitem msg ''subject'') ''Subject'' (tag @ subject))
         else Inl UnicodeError)"

section \<open>\<open>SetMessage\<close>\<close>

text \<open>The \<open>FeedParser\<close> of an accumulator is the text fed to it so far; \<open>None\<close> once the
  accumulator has let go of it.\<close>

record SetMessage =
  config :: config
  address :: pystr
  subject_tag :: string
  recipient_set :: ref
  msg_parser :: "string option"

definition SetMessage_init :: "config \<Rightarrow> pystr \<Rightarrow> string \<Rightarrow> ref \<Rightarrow> SetMessage" where
  "SetMessage_init cfg addr tag rs =
     \<lparr>config = cfg, address = addr, subject_tag = tag, recipient_set = rs,
      msg_parser = Some []\<rparr>"

text \<open>\<open>FeedParser.feed\<close> takes a \<open>str\<close>; given \<open>bytes\<close> it raises \<open>TypeError\<close> and has fed
  nothing.\<close>

definition lineReceived :: "SetMessage \<Rightarrow> pystr \<Rightarrow> world \<Rightarrow> (exn + unit) \<times> SetMessage \<times> world" where
  "lineReceived m line w =
     (case msg_parser m of
        None \<Rightarrow> (Inl AttributeError, m, w)
      | Some buf \<Rightarrow>
          (case line of
             PyBytes b \<Rightarrow> (Inl TypeError, m, w)
           | PyStr l \<Rightarrow> (Inr (), m\<lparr>msg_parser := Some (buf @ l @ [CHR 0x0A])\<rparr>, w)))"

definition connectionLost :: "SetMessage \<Rightarrow> world \<Rightarrow> SetMessage \<times> world" where
  "connectionLost m w =
     (m\<lparr>msg_parser := None\<rparr>, w\<lparr>log := log w @ [Connection_lost (address m)]\<rparr>)"

definition list_id_value :: "pystr \<Rightarrow> string \<Rightarrow> string" where
  "list_id_value addr domain = ''<'' @ py_format addr @ ''.mailingset.'' @ domain @ ''>''"

definition list_post_value :: "pystr \<Rightarrow> string \<Rightarrow> string" where
  "list_post_value addr domain = ''<mailto:'' @ py_format addr @ ''@'' @ domain @ ''>''"

definition munge_header :: "email_lib \<Rightarrow> SetMessage \<Rightarrow> message \<Rightarrow> exn + message" where
  "munge_header lib m msg =
     (let tag = ''['' @ subject_tag m @ ''] '' in
      case (case SubjectPrefix_process (header_encodable lib) tag msg of
              Inl e \<Rightarrow> if is_ValueError e then Inr msg else Inl e
            | Inr msg' \<Rightarrow> Inr msg') of
        Inl e \<Rightarrow> Inl e
      | Inr msg1 \<Rightarrow>
          let msg2 = (if \<not> msg_contains msg1 ''precedence''
                      then msg_setitem msg1 ''Precedence'' ''list'' else msg1)
          in (case config_get (config m) ''incoming'' ''domain'' of
                Inl e \<Rightarrow> Inl e
              | Inr domain \<Rightarrow>
                  let msg3 = msg_delitem msg2 ''list-id'';
                      msg4 = msg_setitem msg3 ''List-Id'' (list_id_value (address m) domain);
                      msg5 = msg_delitem msg4 ''list-post''
                  in Inr (msg_setitem msg5 ''List-Post''
                            (list_post_value (address m) domain))))"

text \<open>\<open>recp |= set([archive_addr])\<close>: the set the reference denotes is updated in place.\<close>

definition add_archive :: "config \<Rightarrow> ref \<Rightarrow> world \<Rightarrow> exn + world" where
  "add_archive cfg recp w =
     (if config_has_option cfg ''outgoing'' ''archive_addr''
      then (case config_get cfg ''outgoing'' ''archive_addr'' of
              Inl e \<Rightarrow> Inl e
            | Inr a \<Rightarrow> Inr (w\<lparr>heap := (heap w)(recp := heap w recp \<union> {a})\<rparr>))
      else Inr w)"

definition eomReceived :: "email_lib \<Rightarrow> SetMessage \<Rightarrow> world \<Rightarrow> (exn + deferred) \<times> SetMessage \<times> world" where
  "eomReceived lib m w =
     (case msg_parser m of
        None \<Rightarrow> (Inl AttributeError, m, w)
      | Some buf \<Rightarrow>
          let msg0 = feedparser_close lib buf;
              m1 = m\<lparr>msg_parser := None\<rparr>
          in (case munge_header lib m1 msg0 of
                Inl e \<Rightarrow> (Inl e, m1, w)
              | Inr msg \<Rightarrow>
                  let recp = recipient_set m1
                  in (case add_archive (config m1) recp w of
                        Inl e \<Rightarrow> (Inl e, m1, w)
                      | Inr w1 \<Rightarrow>
                          let w2 = w1\<lparr>log := log w1 @
                                     [Log_Subject (msg_getitem msg ''Subject''),
                                      Sending_to (heap w1 recp)]\<rparr>
                          in (case config_get (config m1) ''outgoing'' ''server'' of
                                Inl e \<Rightarrow> (Inl e, m1, w2)
                              | Inr outgoing_server \<Rightarrow>
                                  (case config_getint (config m1) ''outgoing'' ''port'' of
                                     Inl e \<Rightarrow> (Inl e, m1, w2)
                                   | Inr outgoing_port \<Rightarrow>
                                       (case config_get (config m1) ''outgoing'' ''envelope_sender'' of
                                          Inl e \<Rightarrow> (Inl e, m1, w2)
                                        | Inr envelope_sender \<Rightarrow>
                                            (Inr \<lparr>d_call = length (sent w2),
                                                  callbacks = [Success (address m1)],
                                                  errbacks = [Failure (address m1)]\<rparr>,
                                             m1,
                                             w2\<lparr>sent := sent w2 @
                                                  [\<lparr>sc_server = outgoing_server,
                                                    sc_envelope_sender = envelope_sender,
                                                    sc_recipients_ref = recp,
                                                    sc_recipients = heap w2 recp,
                                                    sc_text = as_string lib msg,
                                                    sc_port = outgoing_port\<rparr>]\<rparr>)))))))"

section \<open>\<open>SetMessageDelivery.validateTo\<close>\<close>

text \<open>The resolver (\<open>self.parse\<close>) is injected: it maps the decoded local part to a subject
  tag and a reference to the recipient set, or raises.\<close>

type_synonym resolver = "string \<Rightarrow> world \<Rightarrow> (exn + string \<times> ref) \<times> world"

definition validateTo :: "resolver \<Rightarrow> config \<Rightarrow> user \<Rightarrow> world \<Rightarrow> (exn + (unit \<Rightarrow> SetMessage)) \<times> world" where
  "validateTo parse cfg u w =
     (let domain = dest_domain u in
      case config_get cfg ''incoming'' ''domain'' of
        Inl e \<Rightarrow> (Inl e, w)
      | Inr d \<Rightarrow>
          if domain \<noteq> d
          then (Inl (SMTPBadRcpt u (''Incorrect domain: '' @ bytes_repr domain)),
                w\<lparr>log := log w @ [Rejecting_domain domain]\<rparr>)
          else
            let local = dest_local u in
            (case decode local of
               Inl e \<Rightarrow> (Inl e, w)
             | Inr s \<Rightarrow>
                 (case parse s w of
                    (Inl (SyntaxError err), w') \<Rightarrow>
                      (Inl (SMTPBadRcpt u err),
                       w'\<lparr>log := log w' @ [Rejecting_address local err]\<rparr>)
                  | (Inl e, w') \<Rightarrow> (Inl e, w')
                  | (Inr (tag, rs), w') \<Rightarrow>
                      (Inr (\<lambda>_. SetMessage_init cfg (PyBytes local) tag rs), w'))))"

section \<open>Driving an accumulator\<close>

text \<open>
  The SMTP protocol drives an accumulator through the three calls of \<open>IMessage\<close>. A call
  that raises leaves behind what it had done before raising; \<open>run\<close> keeps going after
  it, so that a statement about every run covers whatever the protocol does next.
\<close>

datatype event = LineReceived pystr | EomReceived | ConnectionLost

fun step :: "email_lib \<Rightarrow> SetMessage \<times> world \<Rightarrow> event \<Rightarrow> SetMessage \<times> world" where
  "step lib (m, w) (LineReceived line) = snd (lineReceived m line w)"
| "step lib (m, w) EomReceived = snd (eomReceived lib m w)"
| "step lib (m, w) ConnectionLost = connectionLost m w"

definition run :: "email_lib \<Rightarrow> event list \<Rightarrow> SetMessage \<times> world \<Rightarrow> SetMessage \<times> world" where
  "run lib evs s = foldl (step lib) s evs"

text \<open>What a line adds to the text an open accumulator holds.\<close>

fun fed :: "pystr \<Rightarrow> string" where
  "fed (PyStr l) = l @ [CHR 0x0A]"
| "fed (PyBytes b) = []"

text \<open>One message rewritten by several accumulators in turn.\<close>

fun munge_headers :: "email_lib \<Rightarrow> SetMessage list \<Rightarrow> message \<Rightarrow> exn + message" where
  "munge_headers lib [] msg = Inr msg"
| "munge_headers lib (m # ms) msg =
     (case munge_header lib m msg of
        Inl e \<Rightarrow> Inl e
      | Inr msg' \<Rightarrow> munge_headers lib ms msg')"

section \<open>A sample deployment\<close>

subsection \<open>Sample readers\<close>

text \<open>
  Readers for the examples. An address is an IPv4 dotted quad or IPv6 colon-hex text
  (at most one \<open>::\<close>, the last 32 bits also as a dotted quad); a network is an address,
  or an address, one slash and a prefix length as \<open>int()\<close> reads it, or a netmask or
  hostmask; more than one slash is the \<open>ValueError\<close> of the unpacking. \<open>netaddr\<close> itself
  reads further forms (abbreviated and \<open>inet_aton\<close>-style IPv4 text), which these
  readers refuse.
\<close>

definition dec_octet :: "string \<Rightarrow> int option" where
  "dec_octet s =
     (if length s \<le> 3 \<and> (case s of [] \<Rightarrow> False | c # r \<Rightarrow> r = [] \<or> c \<noteq> CHR ''0'')
      then (case dec_val s of
              None \<Rightarrow> None
            | Some n \<Rightarrow> if n \<le> 255 then Some n else None)
      else None)"

definition parse_ipv4 :: "string \<Rightarrow> int option" where
  "parse_ipv4 s =
     (case map dec_octet (split_on CHR ''.'' s) of
        [Some a, Some b, Some c, Some d] \<Rightarrow> Some (((a * 256 + b) * 256 + c) * 256 + d)
      | _ \<Rightarrow> None)"

definition hex_val :: "char \<Rightarrow> int option" where
  "hex_val c =
     (let n = (of_char c :: int) in
      if 48 \<le> n \<and> n \<le> 57 then Some (n - 48)
      else if 97 \<le> n \<and> n \<le> 102 then Some (n - 87)
      else if 65 \<le> n \<and> n \<le> 70 then Some (n - 55)
      else None)"

definition hex_group :: "string \<Rightarrow> int option" where
  "hex_group s =
     (if 1 \<le> length s \<and> length s \<le> 4 \<and> list_all (\<lambda>c. hex_val c \<noteq> None) s
      then Some (foldl (\<lambda>a c. 16 * a + the (hex_val c)) 0 s)
      else None)"

text \<open>The 16-bit groups a piece of IPv6 text stands for; only the last piece may be a
  dotted quad.\<close>

definition group_vals :: "bool \<Rightarrow> string \<Rightarrow> int list option" where
  "group_vals is_last g =
     (if is_last \<and> CHR ''.'' \<in> set g
      then (case parse_ipv4 g of
              None \<Rightarrow> None
            | Some v \<Rightarrow> Some [v div 65536, v mod 65536])
      else (case hex_group g of None \<Rightarrow> None | Some x \<Rightarrow> Some [x]))"

fun groups_vals :: "string list \<Rightarrow> int list option list" where
  "groups_vals [] = []"
| "groups_vals [g] = [group_vals True g]"
| "groups_vals (g # gs) = group_vals False g # groups_vals gs"

fun collect :: "int list option list \<Rightarrow> int list option" where
  "collect [] = Some []"
| "collect (None # r) = None"
| "collect (Some v # r) = (case collect r of None \<Rightarrow> None | Some vs \<Rightarrow> Some (v @ vs))"

definition parse_ipv6 :: "string \<Rightarrow> int option" where
  "parse_ipv6 s =
     (let gs = split_on CHR '':'' s;
          lead = prefix ''::'' s;
          trail = prefix ''::'' (rev s)
      in if (hd gs = [] \<and> \<not> lead) \<or> (last gs = [] \<and> \<not> trail) then None
         else
           let gs1 = (if lead then tl gs else gs);
               gs2 = (if trail then butlast gs1 else gs1);
               gap = length (filter (\<lambda>g. g = []) gs2);
               front = takeWhile (\<lambda>g. g \<noteq> []) gs2;
               back = drop 1 (dropWhile (\<lambda>g. g \<noteq> []) gs2);
               front_vals = collect (if gap = 0 then groups_vals front
                                     else map (group_vals False) front);
               back_vals = collect (groups_vals back)
           in (case (front_vals, back_vals) of
                 (Some f, Some b) \<Rightarrow>
                   let n = length f + length b
                   in if (gap = 0 \<and> n = 8) \<or> (gap = 1 \<and> n \<le> 7)
                      then Some (foldl (\<lambda>a g. 65536 * a + g) 0
                                   (f @ replicate (8 - n) 0 @ b))
                      else None
               | _ \<Rightarrow> None))"

definition example_IPAddress :: "string \<Rightarrow> exn + ip_address" where
  "example_IPAddress s =
     (case parse_ipv4 s of
        Some v \<Rightarrow> Inr (Addr 4 v)
      | None \<Rightarrow>
          (case parse_ipv6 s of
             Some v \<Rightarrow> Inr (Addr 6 v)
           | None \<Rightarrow> Inl AddrFormatError))"

text \<open>The prefix length of a netmask, else of a hostmask, of the given width.\<close>

definition mask_prefix :: "nat \<Rightarrow> int \<Rightarrow> nat option" where
  "mask_prefix wd m =
     (case find (\<lambda>p. m = 2 ^ wd - 2 ^ (wd - p)) [0..<Suc wd] of
        Some p \<Rightarrow> Some p
      | None \<Rightarrow> find (\<lambda>p. m = 2 ^ (wd - p) - 1) [0..<Suc wd])"

definition example_IPNetwork :: "string \<Rightarrow> exn + ip_network" where
  "example_IPNetwork s =
     (case split_on CHR ''/'' s of
        [a] \<Rightarrow>
          (case example_IPAddress a of
             Inl e \<Rightarrow> Inl e
           | Inr (Addr v x) \<Rightarrow> Inr (Net v x (width v)))
      | [a, p] \<Rightarrow>
          (case example_IPAddress a of
             Inl e \<Rightarrow> Inl e
           | Inr (Addr v x) \<Rightarrow>
               (case py_int p of
                  Inr n \<Rightarrow>
                    if 0 \<le> n \<and> n \<le> int (width v) then Inr (Net v x (nat n))
                    else Inl AddrFormatError
                | Inl _ \<Rightarrow>
                    (case example_IPAddress p of
                       Inl e \<Rightarrow> Inl e
                     | Inr (Addr v' m) \<Rightarrow>
                         if v' \<noteq> v then Inl AddrFormatError
                         else (case mask_prefix (width v) m of
                                 None \<Rightarrow> Inl AddrFormatError
                               | Some pl \<Rightarrow> Inr (Net v x pl)))))
      | _ \<Rightarrow> Inl ValueError)"

text \<open>
  \<open>smtp.Address\<close> for the examples, after Twisted's tokenizer: a token is a longest run
  of atom characters, quoted strings and backslash-escaped characters, or one other
  character (line feeds, which the tokenizer's pattern skips, stay together). Atoms and
  dots go to the local part, or to the domain after an \<open>@\<close>; angle brackets are peeled
  off, a source route is skipped up to its colon, and any other lone character is an
  \<open>AddressError\<close>. The default domain is left out.
\<close>

definition is_atom :: "char \<Rightarrow> bool" where
  "is_atom c =
     (let n = (of_char c :: nat) in
      (48 \<le> n \<and> n \<le> 57) \<or> (65 \<le> n \<and> n \<le> 90) \<or> (97 \<le> n \<and> n \<le> 122) \<or>
      n \<in> set [45, 33, 35, 36, 37, 38, 39, 42, 43, 47, 61, 63, 94, 95, 96, 123, 124, 125, 126])"

datatype tok_mode = Run | Quoted | Escaped | Gap

definition emit :: "string \<Rightarrow> string list \<Rightarrow> string list" where
  "emit cur ts = (if cur = [] then ts else cur # ts)"

fun tokenize :: "tok_mode \<Rightarrow> string \<Rightarrow> string \<Rightarrow> string list" where
  "tokenize mode cur [] = emit cur []"
| "tokenize Quoted cur (c # rest) =
     tokenize (if c = CHR 0x22 then Run else Quoted) (cur @ [c]) rest"
| "tokenize Escaped cur (c # rest) = tokenize Run (cur @ [c]) rest"
| "tokenize mode cur (c # rest) =
     (if (c = CHR 0x22 \<and> CHR 0x22 \<in> set rest) \<or>
         (c = CHR 0x5C \<and> (case rest of [] \<Rightarrow> False | d # _ \<Rightarrow> d \<noteq> CHR 0x0A)) \<or>
         is_atom c
      then let next = (if c = CHR 0x22 then Quoted else if c = CHR 0x5C then Escaped else Run)
           in if mode = Gap then emit cur (tokenize next [c] rest)
              else tokenize next (cur @ [c]) rest
      else if c = CHR 0x0A
      then if mode = Gap then tokenize Gap (cur @ [c]) rest
           else emit cur (tokenize Gap [c] rest)
      else emit cur ([c] # tokenize Run [] rest))"

fun parse_tokens :: "bool \<Rightarrow> string list \<Rightarrow> string list \<Rightarrow> string list \<Rightarrow> exn + string \<times> string" where
  "parse_tokens skip local domain [] =
     (if skip then Inl AddressError else Inr (concat local, concat domain))"
| "parse_tokens True local domain (t # atl) =
     (if t = '':'' then parse_tokens False local domain atl
      else parse_tokens True local domain atl)"
| "parse_tokens False local domain (t # atl) =
     (if t = ''<'' then
        (if last (t # atl) \<noteq> ''>'' then Inl AddressError
         else parse_tokens False local domain (butlast atl))
      else if t = ''@'' then
        (if local = [] then parse_tokens True local domain atl
         else if domain \<noteq> [] then Inl AddressError
         else parse_tokens False local [[]] atl)
      else if (case t of [c] \<Rightarrow> \<not> is_atom c \<and> c \<noteq> CHR ''.'' | _ \<Rightarrow> False) then Inl AddressError
      else if domain = [] then parse_tokens False (local @ [t]) domain atl
      else parse_tokens False local (domain @ [t]) atl)"

fun example_Address :: "pystr \<Rightarrow> exn + string \<times> string" where
  "example_Address (PyBytes b) = parse_tokens False [] [] (tokenize Run [] b)"
| "example_Address (PyStr s) =
     (if list_all (\<lambda>c. (of_char c :: nat) < 128) s
      then parse_tokens False [] [] (tokenize Run [] s)
      else Inl UnicodeEncodeError)"

definition example_libraries :: libraries where
  "example_libraries =
     \<lparr>netaddr_IPNetwork = example_IPNetwork, netaddr_IPAddress = example_IPAddress,
      smtp_Address = example_Address\<rparr>"

subsection \<open>A configuration, a resolver, an \<open>email\<close> package\<close>


definition empty_world :: world where
  "empty_world = \<lparr>heap = (\<lambda>_. {}), log = [], sent = []\<rparr>"

definition example_config :: config where
  "example_config =
     [''incoming'' \<mapsto> [''domain'' \<mapsto> ''lists.example.com'',
                        ''accept_from'' \<mapsto> ''10.0.0.0/8,192.168.0.0/16''],
      ''outgoing'' \<mapsto> [''server'' \<mapsto> ''smtp.example.com'',
                        ''port'' \<mapsto> ''25'',
                        ''envelope_sender'' \<mapsto> ''bounce@lists.example.com'',
                        ''archive_addr'' \<mapsto> ''archive@x.com'']]"

definition example_config_no_archive :: config where
  "example_config_no_archive =
     [''incoming'' \<mapsto> [''domain'' \<mapsto> ''lists.example.com''],
      ''outgoing'' \<mapsto> [''server'' \<mapsto> ''smtp.example.com'',
                        ''port'' \<mapsto> ''25'',
                        ''envelope_sender'' \<mapsto> ''bounce@lists.example.com'']]"

text \<open>A resolver that knows the set expression \<open>eng+sales\<close> (its recipients are the set at
  reference 0) and rejects everything else with the message of its parser.\<close>

definition example_parse :: resolver where
  "example_parse s w =
     (if s = ''eng+sales'' then (Inr (''eng+sales'', 0), w)
      else (Inl (SyntaxError (''unexpected token in '' @ s)), w))"

definition example_world :: world where
  "example_world = \<lparr>heap = (\<lambda>_. {})(0 := {''a@x.com'', ''b@x.com''}), log = [], sent = []\<rparr>"

text \<open>An \<open>email\<close> package for the examples: a header value can be encoded when it is ASCII;
  the parser reads \<open>Name: value\<close> lines up to the first empty line.\<close>

fun example_parse_headers :: "string list \<Rightarrow> (string \<times> string) list \<times> string list" where
  "example_parse_headers [] = ([], [])"
| "example_parse_headers (l # ls) =
     (if l = [] then ([], ls)
      else let (hs, body) = example_parse_headers ls
           in ((takeWhile (\<lambda>c. c \<noteq> CHR '':'') l,
                drop 2 (dropWhile (\<lambda>c. c \<noteq> CHR '':'') l)) # hs, body))"

fun join_lines :: "string list \<Rightarrow> string" where
  "join_lines [] = []"
| "join_lines [l] = l"
| "join_lines (l # ls) = l @ [CHR 0x0A] @ join_lines ls"

definition example_lib :: email_lib where
  "example_lib =
     \<lparr>header_encodable = (\<lambda>v. list_all (\<lambda>c. (of_char c :: nat) < 128) v),
      feedparser_close = (\<lambda>t. let (hs, body) = example_parse_headers (split_on (CHR 0x0A) t)
                               in \<lparr>headers = hs, payload = join_lines body\<rparr>),
      as_string = (\<lambda>msg. concat (map (\<lambda>(k, v). k @ '': '' @ v @ [CHR 0x0A]) (headers msg)) @
                         [CHR 0x0A] @ payload msg)\<rparr>"

text \<open>A message that is already tagged and carries two \<open>List-Id\<close> headers, and an
  accumulator for it.\<close>

definition example_message :: message where
  "example_message =
     \<lparr>headers = [(''Subject'', ''[tag] original''), (''List-Id'', ''<old.example.org>''),
                 (''list-id'', ''<older.example.org>'')],
      payload = ''hello''\<rparr>"

definition example_accumulator :: SetMessage where
  "example_accumulator = SetMessage_init example_config (PyBytes ''eng+sales'') ''tag'' 0"

text \<open>A message whose Subject is not ASCII, and an accumulator of a deployment without
  archive address that shares the recipient set of the first.\<close>

definition example_message_cafe :: message where
  "example_message_cafe =
     \<lparr>headers = [(''Subject'', ''caf'' @ [CHR 0xC3, CHR 0xA9])], payload = ''hello''\<rparr>"

definition example_accumulator_no_archive :: SetMessage where
  "example_accumulator_no_archive =
     SetMessage_init example_config_no_archive (PyBytes ''sales'') ''sales'' 0"

section \<open>Sender validation\<close>

lemma split_on_no_sep: "c \<notin> set r \<Longrightarrow> split_on c r = [r]"
  by (induction r) auto

lemma split_on_append_sep: "c \<notin> set r \<Longrightarrow> split_on c (r @ c # s) = r # split_on c s"
  by (induction r) auto

lemma split_on_comma_join:
  "ranges \<noteq> [] \<Longrightarrow> \<forall>r\<in>set ranges. CHR '','' \<notin> set r \<Longrightarrow>
     split_on CHR '','' (comma_join ranges) = ranges"
proof (induction ranges rule: comma_join.induct)
  case 1
  then show ?case by simp
next
  case (2 r)
  then show ?case by (simp add: split_on_no_sep)
next
  case (3 r r' rs)
  then have "split_on CHR '','' (comma_join (r' # rs)) = r' # rs" by simp
  with 3 show ?case
    using split_on_append_sep [of "CHR '',''" r "comma_join (r' # rs)"] by simp
qed

lemma accept_from_configured:
  assumes "config_get cfg ''incoming'' ''accept_from'' = Inr (comma_join ranges)"
    and "ranges \<noteq> []" and "\<forall>r\<in>set ranges. CHR '','' \<notin> set r"
  shows "accept_from cfg = ranges"
  using assms by (simp add: accept_from_def config_get_fallback_def split_on_comma_join)

lemma client_in_cidr_True_iff:
  "client_in_cidr libs ip c = Inr True \<longleftrightarrow>
     (\<exists>n a. netaddr_IPNetwork libs c = Inr n \<and> netaddr_IPAddress libs ip = Inr a \<and>
            ip_in_network a n)"
  by (auto simp: client_in_cidr_def split: sum.splits)

lemma validateFrom_loop_accepted:
  "fst (validateFrom_loop libs cs helo origin w) = Inr x \<Longrightarrow>
     x = origin \<and> (\<exists>ip. client_ip_of (snd helo) = Inr ip \<and>
                     (\<exists>c\<in>set cs. client_in_cidr libs ip c = Inr True))"
  by (induction cs) (auto split: sum.splits bool.splits)

lemma validateFrom_loop_wf:
  assumes "client_ip_of (snd helo) = Inr ip"
    and "\<forall>c\<in>set cs. \<exists>b. client_in_cidr libs ip c = Inr b"
  shows "validateFrom_loop libs cs helo origin w =
     (if \<exists>c\<in>set cs. client_in_cidr libs ip c = Inr True
      then (Inr origin, w\<lparr>log := log w @ [Receiving_from helo origin]\<rparr>)
      else (Inl (raise_SMTPBadSender libs (snd helo)),
            w\<lparr>log := log w @ [Rejecting_from helo origin]\<rparr>))"
  using assms by (induction cs) (auto split: sum.splits bool.splits)

lemma example_accept_from:
  "config_get example_config ''incoming'' ''accept_from'' =
     Inr (comma_join [''10.0.0.0/8'', ''192.168.0.0/16''])"
  by code_simp

lemma ex_net1: "netaddr_IPNetwork example_libraries ''10.0.0.0/8'' = Inr (Net 4 167772160 8)"
  by code_simp

lemma ex_net2: "netaddr_IPNetwork example_libraries ''192.168.0.0/16'' = Inr (Net 4 3232235520 16)"
  by code_simp

lemma ex_ip: "netaddr_IPAddress example_libraries ''192.168.1.1'' = Inr (Addr 4 3232235777)"
  by code_simp

lemma ex_ip_other: "netaddr_IPAddress example_libraries ''172.16.0.1'' = Inr (Addr 4 2886729729)"
  by code_simp

text \<open>
  Claim C1. Let the configured \<open>incoming.accept_from\<close> be the ranges of a list, joined by
  commas, each a text \<open>netaddr\<close> reads as a network, and let the client address be one
  \<open>netaddr\<close> reads. Then \<open>validateFrom\<close> returns the origin if and only if the address is
  a member of at least one range of the list. Result and log are the same for every
  configured list with the same ranges, in whatever order (the log names no range).
\<close>

theorem validateFrom_accepts_iff_member:
  assumes cfg: "config_get cfg ''incoming'' ''accept_from'' = Inr (comma_join ranges)"
    and ne: "ranges \<noteq> []"
    and nc: "\<forall>r\<in>set ranges. CHR '','' \<notin> set r"
    and wf: "\<forall>r\<in>set ranges. \<exists>n. netaddr_IPNetwork libs r = Inr n"
    and ip: "client_ip_of (snd helo) = Inr ip" "netaddr_IPAddress libs ip = Inr a"
  shows "(fst (validateFrom libs cfg helo origin w) = Inr origin \<longleftrightarrow>
            (\<exists>r\<in>set ranges. \<exists>n. netaddr_IPNetwork libs r = Inr n \<and> ip_in_network a n))
       \<and> (\<forall>cfg' ranges'.
            config_get cfg' ''incoming'' ''accept_from'' = Inr (comma_join ranges') \<and>
            ranges' \<noteq> [] \<and> (\<forall>r\<in>set ranges'. CHR '','' \<notin> set r) \<and>
            set ranges' = set ranges \<longrightarrow>
            validateFrom libs cfg' helo origin w = validateFrom libs cfg helo origin w)"
proof -
  note af = accept_from_configured [OF cfg ne nc]
  have wf': "\<forall>c\<in>set ranges. \<exists>b. client_in_cidr libs ip c = Inr b"
    using wf ip(2) by (auto simp: client_in_cidr_def)
  have mem: "(\<exists>c\<in>set ranges. client_in_cidr libs ip c = Inr True) \<longleftrightarrow>
      (\<exists>r\<in>set ranges. \<exists>n. netaddr_IPNetwork libs r = Inr n \<and> ip_in_network a n)"
    using ip(2) by (auto simp: client_in_cidr_True_iff)
  have eq: "validateFrom libs cfg helo origin w =
     (if \<exists>c\<in>set ranges. client_in_cidr libs ip c = Inr True
      then (Inr origin, w\<lparr>log := log w @ [Receiving_from helo origin]\<rparr>)
      else (Inl (raise_SMTPBadSender libs (snd helo)),
            w\<lparr>log := log w @ [Rejecting_from helo origin]\<rparr>))"
    unfolding validateFrom_def af by (rule validateFrom_loop_wf [OF ip(1) wf'])
  have a1: "fst (validateFrom libs cfg helo origin w) = Inr origin \<longleftrightarrow>
            (\<exists>r\<in>set ranges. \<exists>n. netaddr_IPNetwork libs r = Inr n \<and> ip_in_network a n)"
    unfolding eq mem [symmetric] by simp
  have a3: "validateFrom libs cfg' helo origin w = validateFrom libs cfg helo origin w"
    if c: "config_get cfg' ''incoming'' ''accept_from'' = Inr (comma_join ranges') \<and>
            ranges' \<noteq> [] \<and> (\<forall>r\<in>set ranges'. CHR '','' \<notin> set r) \<and>
            set ranges' = set ranges" for cfg' ranges'
  proof -
    from c have af': "accept_from cfg' = ranges'"
      by (intro accept_from_configured) simp_all
    from c have s: "set ranges' = set ranges" by simp
    have wf2: "\<forall>c\<in>set ranges'. \<exists>b. client_in_cidr libs ip c = Inr b"
      using wf' s by simp
    have "validateFrom libs cfg' helo origin w =
     (if \<exists>c\<in>set ranges'. client_in_cidr libs ip c = Inr True
      then (Inr origin, w\<lparr>log := log w @ [Receiving_from helo origin]\<rparr>)
      else (Inl (raise_SMTPBadSender libs (snd helo)),
            w\<lparr>log := log w @ [Rejecting_from helo origin]\<rparr>))"
      unfolding validateFrom_def af' by (rule validateFrom_loop_wf [OF ip(1) wf2])
    then show ?thesis unfolding eq s .
  qed
  show ?thesis
    by (intro conjI allI impI) (rule a1, rule a3, assumption)
qed

theorem validateFrom_accepts_iff_member_witness:
  "fst (validateFrom example_libraries example_config
          (PyBytes ''mail.example.net'', PyBytes ''192.168.1.1'')
          ''alice@example.net'' empty_world) = Inr ''alice@example.net''
   \<and> ip_in_network (Addr 4 3232235777) (Net 4 3232235520 16)
   \<and> fst (validateFrom example_libraries example_config
          (PyBytes ''mail.example.net'', PyBytes ''172.16.0.1'')
          ''alice@example.net'' empty_world) \<noteq> Inr ''alice@example.net''
   \<and> \<not> ip_in_network (Addr 4 2886729729) (Net 4 167772160 8)
   \<and> \<not> ip_in_network (Addr 4 2886729729) (Net 4 3232235520 16)"
proof -
  have ne: "[''10.0.0.0/8'', ''192.168.0.0/16''] \<noteq> []" by simp
  have nc: "\<forall>r\<in>set [''10.0.0.0/8'', ''192.168.0.0/16'']. CHR '','' \<notin> set r" by simp
  have wf: "\<forall>r\<in>set [''10.0.0.0/8'', ''192.168.0.0/16''].
              \<exists>n. netaddr_IPNetwork example_libraries r = Inr n"
    by (simp add: ex_net1 ex_net2)
  have ip1: "client_ip_of (snd (PyBytes ''mail.example.net'', PyBytes ''192.168.1.1'')) = Inr ''192.168.1.1''"
    by code_simp
  have ip2: "client_ip_of (snd (PyBytes ''mail.example.net'', PyBytes ''172.16.0.1'')) = Inr ''172.16.0.1''"
    by code_simp
  have m: "ip_in_network (Addr 4 3232235777) (Net 4 3232235520 16)" by code_simp
  have n1: "\<not> ip_in_network (Addr 4 2886729729) (Net 4 167772160 8)" by code_simp
  have n2: "\<not> ip_in_network (Addr 4 2886729729) (Net 4 3232235520 16)" by code_simp
  have yes: "\<exists>r\<in>set [''10.0.0.0/8'', ''192.168.0.0/16''].
      \<exists>n. netaddr_IPNetwork example_libraries r = Inr n \<and> ip_in_network (Addr 4 3232235777) n"
    using m by (simp add: ex_net1 ex_net2)
  have no: "\<not> (\<exists>r\<in>set [''10.0.0.0/8'', ''192.168.0.0/16''].
      \<exists>n. netaddr_IPNetwork example_libraries r = Inr n \<and> ip_in_network (Addr 4 2886729729) n)"
    using n1 n2 by (simp add: ex_net1 ex_net2)
  note t1 = validateFrom_accepts_iff_member
              [OF example_accept_from ne nc wf ip1 ex_ip,
               of "''alice@example.net''" empty_world, THEN conjunct1]
  note t2 = validateFrom_accepts_iff_member
              [OF example_accept_from ne nc wf ip2 ex_ip_other,
               of "''alice@example.net''" empty_world, THEN conjunct1]
  from t1 yes have r1: "fst (validateFrom example_libraries example_config
          (PyBytes ''mail.example.net'', PyBytes ''192.168.1.1'')
          ''alice@example.net'' empty_world) = Inr ''alice@example.net''"
    by (rule iffD2)
  from t2 no have r2: "fst (validateFrom example_libraries example_config
          (PyBytes ''mail.example.net'', PyBytes ''172.16.0.1'')
          ''alice@example.net'' empty_world) \<noteq> Inr ''alice@example.net''"
    by (simp only: simp_thms)
  show ?thesis
    by (intro conjI) (rule r1, rule m, rule r2, rule n1, rule n2)
qed

subsection \<open>The default allow-list\<close>

lemma accept_from_default:
  "config_get cfg ''incoming'' ''accept_from'' = Inl e \<Longrightarrow> accept_from cfg = [''0.0.0.0/0'']"
  by (simp add: accept_from_def config_get_fallback_def)

text \<open>
  Claim C9, as the code has it. When \<open>incoming.accept_from\<close> is absent the allow-list is
  the single range \<open>0.0.0.0/0\<close>, the IPv4 network of prefix length 0: \<open>validateFrom\<close>
  returns the origin for every IPv4 client address, and does not return it for a client
  address of the other IP version, for which it logs the rejection and raises.
\<close>

theorem validateFrom_default_accepts_ipv4:
  assumes absent: "config_get cfg ''incoming'' ''accept_from'' = Inl e"
    and net: "netaddr_IPNetwork libs ''0.0.0.0/0'' = Inr (Net 4 0 0)"
    and ip: "client_ip_of (snd helo) = Inr ip"
  shows "(netaddr_IPAddress libs ip = Inr (Addr 4 v) \<and> 0 \<le> v \<and> v < 2 ^ 32 \<longrightarrow>
            validateFrom libs cfg helo origin w =
              (Inr origin, w\<lparr>log := log w @ [Receiving_from helo origin]\<rparr>))
       \<and> (netaddr_IPAddress libs ip = Inr (Addr 6 v) \<longrightarrow>
            (\<exists>x. fst (validateFrom libs cfg helo origin w) = Inl x) \<and>
            snd (validateFrom libs cfg helo origin w) =
              w\<lparr>log := log w @ [Rejecting_from helo origin]\<rparr>)"
proof (intro conjI impI)
  assume a: "netaddr_IPAddress libs ip = Inr (Addr 4 v) \<and> 0 \<le> v \<and> v < 2 ^ 32"
  then have "v div 2 ^ 32 = 0" by simp
  then have "ip_in_network (Addr 4 v) (Net 4 0 0)"
    by (simp add: ip_in_network_def width_def)
  then have "client_in_cidr libs ip ''0.0.0.0/0'' = Inr True"
    using a by (simp add: client_in_cidr_def net)
  then show "validateFrom libs cfg helo origin w =
      (Inr origin, w\<lparr>log := log w @ [Receiving_from helo origin]\<rparr>)"
    by (simp add: validateFrom_def accept_from_default [OF absent] ip)
next
  assume a: "netaddr_IPAddress libs ip = Inr (Addr 6 v)"
  have "\<not> ip_in_network (Addr 6 v) (Net 4 0 0)"
    by (simp add: ip_in_network_def)
  then have c: "client_in_cidr libs ip ''0.0.0.0/0'' = Inr False"
    by (simp add: client_in_cidr_def net a)
  show "\<exists>x. fst (validateFrom libs cfg helo origin w) = Inl x"
    by (simp add: validateFrom_def accept_from_default [OF absent] ip c)
  show "snd (validateFrom libs cfg helo origin w) =
      w\<lparr>log := log w @ [Rejecting_from helo origin]\<rparr>"
    by (simp add: validateFrom_def accept_from_default [OF absent] ip c)
qed

lemma example_absent:
  "config_get example_config_no_archive ''incoming'' ''accept_from''
       = Inl (NoOptionError ''accept_from'' ''incoming'')"
  by code_simp

lemma example_default_net: "netaddr_IPNetwork example_libraries ''0.0.0.0/0'' = Inr (Net 4 0 0)"
  by code_simp

theorem validateFrom_default_accepts_ipv4_witness:
  "validateFrom example_libraries example_config_no_archive
      (PyBytes ''mail.example.net'', PyBytes ''192.168.1.1'')
      ''alice@example.net'' empty_world =
    (Inr ''alice@example.net'',
     empty_world\<lparr>log := log empty_world @
        [Receiving_from (PyBytes ''mail.example.net'', PyBytes ''192.168.1.1'') ''alice@example.net'']\<rparr>)"
proof -
  have ip1: "client_ip_of (snd (PyBytes ''mail.example.net'', PyBytes ''192.168.1.1'')) = Inr ''192.168.1.1''"
    by code_simp
  have r: "netaddr_IPAddress example_libraries ''192.168.1.1'' = Inr (Addr 4 3232235777) \<and>
           (0::int) \<le> 3232235777 \<and> (3232235777::int) < 2 ^ 32"
    by (simp add: ex_ip)
  note t = validateFrom_default_accepts_ipv4
             [OF example_absent example_default_net ip1,
              of 3232235777 "''alice@example.net''" empty_world, THEN conjunct1]
  from t r show ?thesis by (rule mp)
qed

text \<open>The docstring of \<open>validateFrom\<close> promises \<open>SMTPBadSender\<close> for a client that is not
  allowed; for a client address with colons the constructor of that exception fails
  first.\<close>

lemma validateFrom_ipv6_client_raises_AddressError:
  "fst (validateFrom example_libraries example_config
          (PyBytes ''localhost'', PyBytes ''::1'') ''alice@example.net'' empty_world)
     = Inl AddressError"
  by code_simp

text \<open>The claim as stated, that every client IP is accepted, fails for the IPv6 client
  \<open>::1\<close>: the origin is not returned.\<close>

theorem validateFrom_default_does_not_accept_ipv6_client:
  "fst (validateFrom example_libraries example_config_no_archive
          (PyBytes ''localhost'', PyBytes ''::1'') ''alice@example.net'' empty_world)
     \<noteq> Inr ''alice@example.net''
   \<and> config_get example_config_no_archive ''incoming'' ''accept_from''
       = Inl (NoOptionError ''accept_from'' ''incoming'')
   \<and> netaddr_IPAddress example_libraries ''::1'' = Inr (Addr 6 1)"
  by code_simp

section \<open>Recipient validation\<close>

lemma example_domain: "config_get example_config ''incoming'' ''domain'' = Inr ''lists.example.com''"
  by code_simp

lemma bytes_repr_example:
  "bytes_repr ''example.org'' = ''b'' @ [CHR 0x27] @ ''example.org'' @ [CHR 0x27]"
  by code_simp

text \<open>
  Claim C3, as the code has it. A recipient whose domain is not, byte for byte, the
  configured \<open>incoming.domain\<close> is refused with \<open>SMTPBadRcpt\<close>, and the reason starts with
  the text \<open>Incorrect domain: \<close>. Neither the local part nor the resolver has a say: the
  reason and the outcome are the same for every local part and every resolver, and the
  world changes by one log entry only.
\<close>

theorem validateTo_incorrect_domain:
  assumes "config_get cfg ''incoming'' ''domain'' = Inr d"
    and "dest_domain u \<noteq> d"
  shows "\<exists>reason. prefix ''Incorrect domain: '' reason
     \<and> (\<forall>parse. validateTo parse cfg u w =
           (Inl (SMTPBadRcpt u reason), w\<lparr>log := log w @ [Rejecting_domain (dest_domain u)]\<rparr>))
     \<and> (\<forall>parse l. validateTo parse cfg (u\<lparr>dest_local := l\<rparr>) w =
           (Inl (SMTPBadRcpt (u\<lparr>dest_local := l\<rparr>) reason),
            w\<lparr>log := log w @ [Rejecting_domain (dest_domain u)]\<rparr>))"
proof (intro exI conjI allI)
  show "prefix ''Incorrect domain: '' (''Incorrect domain: '' @ bytes_repr (dest_domain u))"
    by (rule prefixI) (rule refl)
  show "validateTo parse cfg u w =
     (Inl (SMTPBadRcpt u (''Incorrect domain: '' @ bytes_repr (dest_domain u))),
      w\<lparr>log := log w @ [Rejecting_domain (dest_domain u)]\<rparr>)" for parse
    using assms by (simp add: validateTo_def Let_def)
  show "validateTo parse cfg (u\<lparr>dest_local := l\<rparr>) w =
     (Inl (SMTPBadRcpt (u\<lparr>dest_local := l\<rparr>) (''Incorrect domain: '' @ bytes_repr (dest_domain u))),
      w\<lparr>log := log w @ [Rejecting_domain (dest_domain u)]\<rparr>)" for parse l
    using assms by (simp add: validateTo_def Let_def)
qed

theorem validateTo_incorrect_domain_witness:
  "\<exists>reason. prefix ''Incorrect domain: '' reason
     \<and> validateTo example_parse example_config
         \<lparr>dest_local = ''eng+sales'', dest_domain = ''Lists.Example.Com''\<rparr> empty_world =
       (Inl (SMTPBadRcpt \<lparr>dest_local = ''eng+sales'', dest_domain = ''Lists.Example.Com''\<rparr> reason),
        empty_world\<lparr>log := log empty_world @ [Rejecting_domain ''Lists.Example.Com'']\<rparr>)"
proof -
  have n: "dest_domain \<lparr>dest_local = ''eng+sales'', dest_domain = ''Lists.Example.Com''\<rparr>
             \<noteq> ''lists.example.com''"
    by simp
  from validateTo_incorrect_domain [OF example_domain n, of empty_world]
  obtain reason where
    p: "prefix ''Incorrect domain: '' reason"
    and v: "\<forall>parse. validateTo parse example_config
         \<lparr>dest_local = ''eng+sales'', dest_domain = ''Lists.Example.Com''\<rparr> empty_world =
       (Inl (SMTPBadRcpt \<lparr>dest_local = ''eng+sales'', dest_domain = ''Lists.Example.Com''\<rparr> reason),
        empty_world\<lparr>log := log empty_world @
          [Rejecting_domain (dest_domain \<lparr>dest_local = ''eng+sales'', dest_domain = ''Lists.Example.Com''\<rparr>)]\<rparr>)"
    by (elim exE conjE) (rule that)
  from v have "validateTo example_parse example_config
         \<lparr>dest_local = ''eng+sales'', dest_domain = ''Lists.Example.Com''\<rparr> empty_world =
       (Inl (SMTPBadRcpt \<lparr>dest_local = ''eng+sales'', dest_domain = ''Lists.Example.Com''\<rparr> reason),
        empty_world\<lparr>log := log empty_world @ [Rejecting_domain ''Lists.Example.Com'']\<rparr>)"
    by simp
  with p show ?thesis by (intro exI conjI)
qed

text \<open>The claim as stated gives the reason as \<open>incorrect domain\<close>; what the code gives
  for the domain \<open>example.org\<close> is another text.\<close>

theorem validateTo_reason_is_not_incorrect_domain:
  "fst (validateTo example_parse example_config
          \<lparr>dest_local = ''eng+sales'', dest_domain = ''example.org''\<rparr> empty_world) =
     Inl (SMTPBadRcpt \<lparr>dest_local = ''eng+sales'', dest_domain = ''example.org''\<rparr>
            (''Incorrect domain: b'' @ [CHR 0x27] @ ''example.org'' @ [CHR 0x27]))
   \<and> fst (validateTo example_parse example_config
          \<lparr>dest_local = ''eng+sales'', dest_domain = ''example.org''\<rparr> empty_world) \<noteq>
     Inl (SMTPBadRcpt \<lparr>dest_local = ''eng+sales'', dest_domain = ''example.org''\<rparr>
            ''incorrect domain'')"
  by (simp add: validateTo_def Let_def example_domain bytes_repr_example)

text \<open>
  Claim C7. When the domain matches and the resolver raises a \<open>SyntaxError\<close> on the
  decoded local part, \<open>validateTo\<close> raises \<open>SMTPBadRcpt\<close> with the text of that error as
  its reason, unchanged.
\<close>

theorem validateTo_parse_error_verbatim:
  assumes "config_get cfg ''incoming'' ''domain'' = Inr (dest_domain u)"
    and "decode (dest_local u) = Inr s"
    and "parse s w = (Inl (SyntaxError err), w')"
  shows "validateTo parse cfg u w =
     (Inl (SMTPBadRcpt u err),
      w'\<lparr>log := log w' @ [Rejecting_address (dest_local u) err]\<rparr>)"
  using assms by (simp add: validateTo_def Let_def)

theorem validateTo_parse_error_verbatim_witness:
  "validateTo example_parse example_config
      \<lparr>dest_local = ''a&&b'', dest_domain = ''lists.example.com''\<rparr> empty_world =
     (Inl (SMTPBadRcpt \<lparr>dest_local = ''a&&b'', dest_domain = ''lists.example.com''\<rparr>
            ''unexpected token in a&&b''),
      empty_world\<lparr>log := log empty_world @
         [Rejecting_address ''a&&b'' ''unexpected token in a&&b'']\<rparr>)"
proof -
  have d: "config_get example_config ''incoming'' ''domain'' =
      Inr (dest_domain \<lparr>dest_local = ''a&&b'', dest_domain = ''lists.example.com''\<rparr>)"
    by code_simp
  have l: "decode (dest_local \<lparr>dest_local = ''a&&b'', dest_domain = ''lists.example.com''\<rparr>)
      = Inr ''a&&b''"
    by code_simp
  have p: "example_parse ''a&&b'' empty_world =
      (Inl (SyntaxError ''unexpected token in a&&b''), empty_world)"
    by (simp add: example_parse_def)
  from validateTo_parse_error_verbatim
         [where u = "\<lparr>dest_local = ''a&&b'', dest_domain = ''lists.example.com''\<rparr>"
            and parse = example_parse, OF d l p]
  show ?thesis by simp
qed

section \<open>Connection loss\<close>

lemma step_closed:
  "msg_parser m = None \<Longrightarrow>
     msg_parser (fst (step lib (m, w) ev)) = None \<and> sent (snd (step lib (m, w) ev)) = sent w"
  by (cases ev) (simp_all add: lineReceived_def eomReceived_def connectionLost_def)

lemma run_closed:
  "msg_parser (fst s) = None \<Longrightarrow> sent (snd (run lib evs s)) = sent (snd s)"
proof (induction evs arbitrary: s)
  case Nil
  then show ?case by (simp add: run_def)
next
  case (Cons ev evs)
  obtain m w where s: "s = (m, w)" by (cases s)
  with Cons.prems have c: "msg_parser m = None" by simp
  have "sent (snd (run lib evs (step lib (m, w) ev))) = sent (snd (step lib (m, w) ev))"
    by (rule Cons.IH) (simp add: step_closed [OF c])
  then show ?case using step_closed [OF c, of lib w ev] by (simp add: run_def s)
qed

lemma run_lines:
  "msg_parser m = Some buf \<Longrightarrow>
     run lib (map LineReceived ls) (m, w) =
       (m\<lparr>msg_parser := Some (buf @ concat (map fed ls))\<rparr>, w)"
proof (induction ls arbitrary: m buf)
  case Nil
  then show ?case by (simp add: run_def)
next
  case (Cons l ls)
  have "run lib (map LineReceived (l # ls)) (m, w) =
      run lib (map LineReceived ls) (m\<lparr>msg_parser := Some (buf @ fed l)\<rparr>, w)"
  proof (cases l)
    case (PyStr t)
    with Cons.prems show ?thesis by (simp add: run_def lineReceived_def)
  next
    case (PyBytes b)
    have same: "m\<lparr>msg_parser := Some buf\<rparr> = m"
      using Cons.prems by (cases m) simp
    have "step lib (m, w) (LineReceived l) = (m, w)"
      using PyBytes Cons.prems by (simp add: lineReceived_def)
    then show ?thesis
      unfolding PyBytes by (simp add: run_def same)
  qed
  also have "\<dots> = (m\<lparr>msg_parser := Some ((buf @ fed l) @ concat (map fed ls))\<rparr>, w)"
    using Cons.IH [of "m\<lparr>msg_parser := Some (buf @ fed l)\<rparr>" "buf @ fed l"]
    by simp
  finally show ?case by simp
qed

text \<open>
  Claim C2. An accumulator that has received any number of lines and has not been
  closed holds the text of the lines it could take (a \<open>bytes\<close> line is refused with a
  \<open>TypeError\<close> and adds nothing); \<open>connectionLost\<close> drops that text, logs one error and
  calls \<open>sendmail\<close> not at all, and no later call on that accumulator sends anything
  either.
\<close>

theorem connectionLost_never_sends:
  "(let (m1, w1) = run lib (map LineReceived lines) (SetMessage_init cfg addr tag rs, w);
        (m2, w2) = connectionLost m1 w1
    in msg_parser m1 = Some (concat (map fed lines))
       \<and> msg_parser m2 = None
       \<and> log w2 = log w @ [Connection_lost addr]
       \<and> sent w2 = sent w
       \<and> heap w2 = heap w
       \<and> (\<forall>evs. sent (snd (run lib evs (m2, w2))) = sent w))"
proof -
  have r: "run lib (map LineReceived lines) (SetMessage_init cfg addr tag rs, w) =
      ((SetMessage_init cfg addr tag rs)\<lparr>msg_parser :=
          Some ([] @ concat (map fed lines))\<rparr>, w)"
    by (rule run_lines) (simp add: SetMessage_init_def)
  have c: "sent (snd (run lib evs (connectionLost m1 w1))) = sent w1" for evs m1 w1
    using run_closed [of "connectionLost m1 w1" lib evs]
    by (simp add: connectionLost_def)
  show ?thesis
    unfolding r Let_def
    by (simp add: c split_beta) (simp add: connectionLost_def SetMessage_init_def)
qed

section \<open>Header rewriting\<close>

lemma lower_names:
  "lower ''List-Id'' = ''list-id''" "lower ''List-Post'' = ''list-post''"
  "lower ''Precedence'' = ''precedence''" "lower ''Subject'' = ''subject''"
  "lower ''list-id'' = ''list-id''" "lower ''list-post'' = ''list-post''"
  "lower ''precedence'' = ''precedence''" "lower ''subject'' = ''subject''"
  by code_simp+

lemma msg_get_all_setitem:
  "msg_get_all (msg_setitem msg k v) name =
     msg_get_all msg name @ (if lower k = lower name then [v] else [])"
  by (simp add: msg_get_all_def msg_setitem_def)

lemma msg_get_all_delitem:
  "msg_get_all (msg_delitem msg n) name =
     (if lower n = lower name then [] else msg_get_all msg name)"
proof -
  have h1: "filter (\<lambda>(k, v). lower k = lower name) (filter (\<lambda>(k, v). lower k \<noteq> lower n) hs) = []"
    if "lower n = lower name" for hs
    using that by (induction hs) auto
  have h2: "filter (\<lambda>(k, v). lower k = lower name) (filter (\<lambda>(k, v). lower k \<noteq> lower n) hs) =
            filter (\<lambda>(k, v). lower k = lower name) hs"
    if "lower n \<noteq> lower name" for hs
    using that by (induction hs) auto
  show ?thesis
    by (simp add: msg_get_all_def msg_delitem_def h1 h2 del: filter_filter)
qed

lemma msg_contains_get_all: "msg_contains msg name \<longleftrightarrow> msg_get_all msg name \<noteq> []"
proof -
  have "lower name \<in> set (map (\<lambda>(k, v). lower k) hs) \<longleftrightarrow>
        map snd (filter (\<lambda>(k, v). lower k = lower name) hs) \<noteq> []" for hs
    by (induction hs) auto
  then show ?thesis by (simp add: msg_contains_def msg_get_all_def)
qed

lemma msg_getitem_get_all:
  "msg_getitem msg name = (case msg_get_all msg name of [] \<Rightarrow> None | v # _ \<Rightarrow> Some v)"
  by (simp add: msg_getitem_def msg_get_all_def split: list.splits prod.splits)

lemma subject_step_Inr:
  "\<exists>msg1. (case SubjectPrefix_process enc tag msg of
              Inl e \<Rightarrow> if is_ValueError e then Inr msg else Inl e
            | Inr msg' \<Rightarrow> Inr msg') = Inr msg1"
  by (simp add: SubjectPrefix_process_def Let_def)

lemma munge_header_shape:
  assumes "config_get (config m) ''incoming'' ''domain'' = Inr d"
  shows "\<exists>msg2. munge_header lib m msg =
     Inr (msg_setitem
            (msg_delitem
               (msg_setitem (msg_delitem msg2 ''list-id'') ''List-Id''
                  (list_id_value (address m) d))
               ''list-post'')
            ''List-Post'' (list_post_value (address m) d))"
proof -
  obtain msg1 where
    "(case SubjectPrefix_process (header_encodable lib) (''['' @ subject_tag m @ ''] '') msg of
              Inl e \<Rightarrow> if is_ValueError e then Inr msg else Inl e
            | Inr msg' \<Rightarrow> Inr msg') = Inr msg1"
    using subject_step_Inr by blast
  then show ?thesis
    using assms by (auto simp add: munge_header_def Let_def)
qed

lemma munge_header_list_values:
  assumes "config_get (config m) ''incoming'' ''domain'' = Inr d"
  shows "\<exists>msg'. munge_header lib m msg = Inr msg'
           \<and> msg_get_all msg' ''List-Id'' = [list_id_value (address m) d]
           \<and> msg_get_all msg' ''List-Post'' = [list_post_value (address m) d]"
proof -
  from munge_header_shape [OF assms] obtain msg2 where
    "munge_header lib m msg =
     Inr (msg_setitem
            (msg_delitem
               (msg_setitem (msg_delitem msg2 ''list-id'') ''List-Id''
                  (list_id_value (address m) d))
               ''list-post'')
            ''List-Post'' (list_post_value (address m) d))"
    by blast
  then show ?thesis
    by (simp add: msg_get_all_setitem msg_get_all_delitem lower_names)
qed

lemma munge_headers_last:
  assumes "ms \<noteq> []"
    and "\<forall>m\<in>set ms. \<exists>d. config_get (config m) ''incoming'' ''domain'' = Inr d"
    and "config_get (config (last ms)) ''incoming'' ''domain'' = Inr d"
  shows "\<exists>msg'. munge_headers lib ms msg = Inr msg'
           \<and> msg_get_all msg' ''List-Id'' = [list_id_value (address (last ms)) d]
           \<and> msg_get_all msg' ''List-Post'' = [list_post_value (address (last ms)) d]"
  using assms
proof (induction ms arbitrary: msg)
  case Nil
  then show ?case by simp
next
  case (Cons m ms)
  show ?case
  proof (cases "ms = []")
    case True
    with Cons.prems munge_header_list_values [of m d lib msg] show ?thesis by auto
  next
    case False
    from Cons.prems obtain d0 where "config_get (config m) ''incoming'' ''domain'' = Inr d0"
      by auto
    then obtain msg0 where m0: "munge_header lib m msg = Inr msg0"
      using munge_header_list_values by blast
    from Cons.IH [of msg0] False Cons.prems show ?thesis
      by (simp add: m0)
  qed
qed

lemma example_domain': "config_get (config example_accumulator) ''incoming'' ''domain'' = Inr ''lists.example.com''"
  by (simp add: example_accumulator_def SetMessage_init_def example_domain)

lemma bytes_repr_eng: "bytes_repr ''eng+sales'' = ''b'' @ [CHR 0x27] @ ''eng+sales'' @ [CHR 0x27]"
  by code_simp

text \<open>
  Whatever headers a message carries, after \<open>_munge_header\<close> it has exactly one
  \<open>List-Id\<close> and exactly one \<open>List-Post\<close> header: each is the format string of the source
  filled by \<open>%s\<close> with the accumulator's address and the configured domain. The same
  holds after any number of earlier rewrites by other accumulators, with the values of
  the last rewrite.
\<close>

lemma munge_header_one_list_id_one_list_post:
  assumes "config_get (config m) ''incoming'' ''domain'' = Inr d"
  shows "(\<exists>msg'. munge_header lib m msg = Inr msg'
           \<and> msg_get_all msg' ''List-Id'' = [''<'' @ py_format (address m) @ ''.mailingset.'' @ d @ ''>'']
           \<and> msg_get_all msg' ''List-Post'' = [''<mailto:'' @ py_format (address m) @ ''@'' @ d @ ''>''])
       \<and> (\<forall>ms :: SetMessage list. (\<forall>m'\<in>set ms. \<exists>d'. config_get (config m') ''incoming'' ''domain'' = Inr d') \<longrightarrow>
            (\<exists>msg'. munge_headers lib (ms @ [m]) msg = Inr msg'
              \<and> msg_get_all msg' ''List-Id'' = [''<'' @ py_format (address m) @ ''.mailingset.'' @ d @ ''>'']
              \<and> msg_get_all msg' ''List-Post'' = [''<mailto:'' @ py_format (address m) @ ''@'' @ d @ ''>'']))"
proof (intro conjI allI impI)
  show "\<exists>msg'. munge_header lib m msg = Inr msg'
           \<and> msg_get_all msg' ''List-Id'' = [''<'' @ py_format (address m) @ ''.mailingset.'' @ d @ ''>'']
           \<and> msg_get_all msg' ''List-Post'' = [''<mailto:'' @ py_format (address m) @ ''@'' @ d @ ''>'']"
    using munge_header_list_values [OF assms, of lib msg]
    by (simp add: list_id_value_def list_post_value_def)
next
  fix ms :: "SetMessage list"
  assume a: "\<forall>m'\<in>set ms. \<exists>d'. config_get (config m') ''incoming'' ''domain'' = Inr d'"
  have "\<exists>msg'. munge_headers lib (ms @ [m]) msg = Inr msg'
           \<and> msg_get_all msg' ''List-Id'' = [list_id_value (address (last (ms @ [m]))) d]
           \<and> msg_get_all msg' ''List-Post'' = [list_post_value (address (last (ms @ [m]))) d]"
    by (rule munge_headers_last) (use a assms in auto)
  then show "\<exists>msg'. munge_headers lib (ms @ [m]) msg = Inr msg'
              \<and> msg_get_all msg' ''List-Id'' = [''<'' @ py_format (address m) @ ''.mailingset.'' @ d @ ''>'']
              \<and> msg_get_all msg' ''List-Post'' = [''<mailto:'' @ py_format (address m) @ ''@'' @ d @ ''>'']"
    by (simp add: list_id_value_def list_post_value_def)
qed

lemma decode_eng_sales: "decode ''eng+sales'' = Inr ''eng+sales''"
  by code_simp

lemma validateTo_eng_sales:
  "fst (validateTo example_parse example_config
          \<lparr>dest_local = ''eng+sales'', dest_domain = ''lists.example.com''\<rparr> example_world) =
     Inr (\<lambda>_. SetMessage_init example_config (PyBytes ''eng+sales'') ''eng+sales'' 0)"
  by (simp add: validateTo_def Let_def example_domain decode_eng_sales example_parse_def)

text \<open>
  Claim C4. The count holds, the values do not. The recipient
  \<open>eng+sales@lists.example.com\<close> is accepted, and the accumulator that \<open>validateTo\<close>
  returns for it holds the local part as \<open>bytes\<close>; its rewrite of a message with two
  \<open>List-Id\<close> headers leaves one \<open>List-Id\<close> and one \<open>List-Post\<close> header, whose values carry
  the \<open>bytes\<close> literal of the local part and are not the values built from the address
  itself.
\<close>

theorem list_headers_carry_bytes_literal:
  "(case fst (validateTo example_parse example_config
               \<lparr>dest_local = ''eng+sales'', dest_domain = ''lists.example.com''\<rparr>
               example_world) of
      Inl e \<Rightarrow> False
    | Inr create \<Rightarrow>
        address (create ()) = PyBytes ''eng+sales'' \<and>
        (case munge_header example_lib (create ()) example_message of
           Inl e \<Rightarrow> False
         | Inr msg' \<Rightarrow>
             msg_get_all example_message ''List-Id'' =
               [''<old.example.org>'', ''<older.example.org>''] \<and>
             msg_get_all msg' ''List-Id'' =
               [''<b'' @ [CHR 0x27] @ ''eng+sales'' @ [CHR 0x27] @
                ''.mailingset.lists.example.com>''] \<and>
             msg_get_all msg' ''List-Post'' =
               [''<mailto:b'' @ [CHR 0x27] @ ''eng+sales'' @ [CHR 0x27] @
                ''@lists.example.com>''] \<and>
             msg_get_all msg' ''List-Id'' \<noteq> [''<eng+sales.mailingset.lists.example.com>''] \<and>
             msg_get_all msg' ''List-Post'' \<noteq> [''<mailto:eng+sales@lists.example.com>'']))"
proof -
  let ?m = "SetMessage_init example_config (PyBytes ''eng+sales'') ''eng+sales'' 0"
  have d: "config_get (config ?m) ''incoming'' ''domain'' = Inr ''lists.example.com''"
    by (simp add: SetMessage_init_def example_domain)
  have a: "py_format (address ?m) = ''b'' @ [CHR 0x27] @ ''eng+sales'' @ [CHR 0x27]"
    by (simp add: SetMessage_init_def bytes_repr_eng)
  have b: "msg_get_all example_message ''List-Id'' = [''<old.example.org>'', ''<older.example.org>'']"
    by code_simp
  from munge_header_list_values [OF d, of example_lib example_message]
  obtain msg' where
    m: "munge_header example_lib ?m example_message = Inr msg'"
    and li: "msg_get_all msg' ''List-Id'' = [list_id_value (address ?m) ''lists.example.com'']"
    and lp: "msg_get_all msg' ''List-Post'' = [list_post_value (address ?m) ''lists.example.com'']"
    by (elim exE conjE) (rule that)
  have li': "msg_get_all msg' ''List-Id'' =
               [''<b'' @ [CHR 0x27] @ ''eng+sales'' @ [CHR 0x27] @ ''.mailingset.lists.example.com>'']"
    unfolding li list_id_value_def a by simp
  have lp': "msg_get_all msg' ''List-Post'' =
               [''<mailto:b'' @ [CHR 0x27] @ ''eng+sales'' @ [CHR 0x27] @ ''@lists.example.com>'']"
    unfolding lp list_post_value_def a by simp
  have n1: "msg_get_all msg' ''List-Id'' \<noteq> [''<eng+sales.mailingset.lists.example.com>'']"
    unfolding li' by simp
  have n2: "msg_get_all msg' ''List-Post'' \<noteq> [''<mailto:eng+sales@lists.example.com>'']"
    unfolding lp' by simp
  have ad: "address (?m) = PyBytes ''eng+sales''"
    by (simp add: SetMessage_init_def)
  show ?thesis
    unfolding validateTo_eng_sales sum.case m
    by (intro conjI) (rule ad, rule b, rule li', rule lp', rule n1, rule n2)
qed

subsection \<open>The subject tag\<close>

lemma process_Inl:
  "SubjectPrefix_process enc tag msg = Inl e \<Longrightarrow> e = UnicodeError"
  by (auto simp: SubjectPrefix_process_def Let_def split: if_splits)

lemma process_get_all:
  "SubjectPrefix_process enc tag msg = Inr msg' \<Longrightarrow>
     msg_get_all msg' ''Subject'' =
       (let subj = (case msg_getitem msg ''subject'' of None \<Rightarrow> [] | Some s \<Rightarrow> s)
        in if prefix tag subj then msg_get_all msg ''Subject'' else [tag @ subj])"
  by (auto simp: SubjectPrefix_process_def Let_def msg_get_all_setitem msg_get_all_delitem
        lower_names split: if_splits)

lemma process_idem:
  assumes "SubjectPrefix_process enc tag msg = Inr msg'"
  shows "SubjectPrefix_process enc tag msg' = Inr msg'"
proof (cases "msg' = msg")
  case True
  with assms show ?thesis by simp
next
  case False
  define subj where "subj = (case msg_getitem msg ''subject'' of None \<Rightarrow> [] | Some s \<Rightarrow> s)"
  from assms False have "msg' = msg_setitem (msg_delitem msg ''subject'') ''Subject'' (tag @ subj)"
    by (auto simp: SubjectPrefix_process_def Let_def subj_def split: if_splits)
  then have "msg_getitem msg' ''subject'' = Some (tag @ subj)"
    by (simp add: msg_getitem_get_all msg_get_all_setitem msg_get_all_delitem lower_names)
  then show ?thesis by (simp add: SubjectPrefix_process_def)
qed

lemma munge_header_subject:
  assumes "config_get (config m) ''incoming'' ''domain'' = Inr d"
  shows "\<exists>msg'. munge_header lib m msg = Inr msg' \<and>
     msg_get_all msg' ''Subject'' =
       (case SubjectPrefix_process (header_encodable lib) (''['' @ subject_tag m @ ''] '') msg of
          Inl e \<Rightarrow> msg_get_all msg ''Subject''
        | Inr msg1 \<Rightarrow> msg_get_all msg1 ''Subject'')"
proof (cases "SubjectPrefix_process (header_encodable lib) (''['' @ subject_tag m @ ''] '') msg")
  case (Inl e)
  then have "e = UnicodeError" by (rule process_Inl)
  with Inl assms show ?thesis
    by (simp add: munge_header_def Let_def msg_get_all_setitem msg_get_all_delitem lower_names)
next
  case (Inr msg1)
  with assms show ?thesis
    by (simp add: munge_header_def Let_def msg_get_all_setitem msg_get_all_delitem lower_names)
qed


lemma msg_get_all_Subject: "msg_get_all msg ''Subject'' = msg_get_all msg ''subject''"
  by (simp add: msg_get_all_def lower_names)

lemma msg_getitem_Subject: "msg_getitem msg ''Subject'' = msg_getitem msg ''subject''"
  by (simp add: msg_getitem_def lower_names)

lemma munge_header_subject_cases:
  assumes "config_get (config m) ''incoming'' ''domain'' = Inr d"
  shows "\<exists>msg'. munge_header lib m msg = Inr msg' \<and>
     msg_get_all msg' ''Subject'' =
       (let tag = ''['' @ subject_tag m @ ''] '';
            subj = (case msg_getitem msg ''subject'' of None \<Rightarrow> [] | Some s \<Rightarrow> s)
        in if prefix tag subj \<or> \<not> header_encodable lib (tag @ subj)
           then msg_get_all msg ''Subject'' else [tag @ subj])"
proof -
  let ?tag = "''['' @ subject_tag m @ ''] ''"
  from munge_header_subject [OF assms, of lib msg] obtain msg' where
    m: "munge_header lib m msg = Inr msg'" and
    s: "msg_get_all msg' ''Subject'' =
       (case SubjectPrefix_process (header_encodable lib) ?tag msg of
          Inl e \<Rightarrow> msg_get_all msg ''Subject''
        | Inr msg1 \<Rightarrow> msg_get_all msg1 ''Subject'')"
    by blast
  show ?thesis
  proof (cases "SubjectPrefix_process (header_encodable lib) ?tag msg")
    case (Inl e)
    then show ?thesis using m s
      by (auto simp: SubjectPrefix_process_def Let_def split: if_splits)
  next
    case (Inr msg1)
    from process_get_all [OF Inr] Inr show ?thesis using m s
      by (auto simp: SubjectPrefix_process_def Let_def split: if_splits)
  qed
qed

text \<open>
  Claim C6. The rewrite leaves the Subject headers as they are when the Subject already
  starts with the bracketed tag, and otherwise puts \<open>[tag] \<close> in front of it (when the
  new value can be encoded); rewriting a rewritten message changes its Subject no
  more. A Subject \<open>[tag] original\<close> rewritten for the tag \<open>tag\<close> stays \<open>[tag] original\<close>.
\<close>

theorem subject_tagging_idempotent:
  assumes dom: "config_get (config m) ''incoming'' ''domain'' = Inr d"
  shows
   "(\<forall>subj. msg_getitem msg ''Subject'' = Some subj \<and> prefix (''['' @ subject_tag m @ ''] '') subj \<longrightarrow>
       (\<exists>msg'. munge_header lib m msg = Inr msg' \<and>
                msg_get_all msg' ''Subject'' = msg_get_all msg ''Subject''))
  \<and> (\<forall>subj. msg_getitem msg ''Subject'' = Some subj \<and>
             \<not> prefix (''['' @ subject_tag m @ ''] '') subj \<and>
             header_encodable lib ((''['' @ subject_tag m @ ''] '') @ subj) \<longrightarrow>
       (\<exists>msg'. munge_header lib m msg = Inr msg' \<and>
                msg_get_all msg' ''Subject'' = [(''['' @ subject_tag m @ ''] '') @ subj]))
  \<and> (\<forall>msg'. munge_header lib m msg = Inr msg' \<longrightarrow>
       (\<exists>msg''. munge_header lib m msg' = Inr msg'' \<and>
                 msg_get_all msg'' ''Subject'' = msg_get_all msg' ''Subject''))
  \<and> (subject_tag m = ''tag'' \<and> msg_getitem msg ''Subject'' = Some ''[tag] original'' \<longrightarrow>
       (\<exists>msg'. munge_header lib m msg = Inr msg' \<and>
                msg_getitem msg' ''Subject'' = Some ''[tag] original'' \<and>
                msg_get_all msg' ''Subject'' = msg_get_all msg ''Subject''))"
proof (intro conjI allI impI)
  let ?tag = "''['' @ subject_tag m @ ''] ''"
  fix subj
  assume "msg_getitem msg ''Subject'' = Some subj \<and> prefix ?tag subj"
  then show "\<exists>msg'. munge_header lib m msg = Inr msg' \<and>
                msg_get_all msg' ''Subject'' = msg_get_all msg ''Subject''"
    using munge_header_subject_cases [OF dom, of lib msg]
    by (auto simp: msg_getitem_Subject Let_def)
next
  let ?tag = "''['' @ subject_tag m @ ''] ''"
  fix subj
  assume "msg_getitem msg ''Subject'' = Some subj \<and> \<not> prefix ?tag subj \<and>
             header_encodable lib (?tag @ subj)"
  then show "\<exists>msg'. munge_header lib m msg = Inr msg' \<and>
                msg_get_all msg' ''Subject'' = [?tag @ subj]"
    using munge_header_subject_cases [OF dom, of lib msg]
    by (auto simp: msg_getitem_Subject Let_def)
next
  let ?tag = "''['' @ subject_tag m @ ''] ''"
  fix msg'
  assume m1: "munge_header lib m msg = Inr msg'"
  define subj where "subj = (case msg_getitem msg ''subject'' of None \<Rightarrow> [] | Some s \<Rightarrow> s)"
  define subj' where "subj' = (case msg_getitem msg' ''subject'' of None \<Rightarrow> [] | Some s \<Rightarrow> s)"
  have g: "msg_get_all msg' ''Subject'' =
      (if prefix ?tag subj \<or> \<not> header_encodable lib (?tag @ subj)
       then msg_get_all msg ''Subject'' else [?tag @ subj])"
    using munge_header_subject_cases [OF dom, of lib msg] m1
    by (simp add: Let_def subj_def)
  have s': "prefix ?tag subj' \<or> \<not> header_encodable lib (?tag @ subj')"
  proof (cases "prefix ?tag subj \<or> \<not> header_encodable lib (?tag @ subj)")
    case True
    with g have "msg_get_all msg' ''subject'' = msg_get_all msg ''subject''"
      by (simp add: msg_get_all_Subject)
    then have "subj' = subj"
      by (simp add: subj_def subj'_def msg_getitem_get_all)
    with True show ?thesis by simp
  next
    case False
    with g have "msg_get_all msg' ''subject'' = [?tag @ subj]"
      by (simp add: msg_get_all_Subject)
    then have "subj' = ?tag @ subj"
      by (simp add: subj'_def msg_getitem_get_all)
    then show ?thesis by simp
  qed
  from munge_header_subject_cases [OF dom, of lib msg'] s'
  show "\<exists>msg''. munge_header lib m msg' = Inr msg'' \<and>
                 msg_get_all msg'' ''Subject'' = msg_get_all msg' ''Subject''"
    by (simp add: Let_def subj'_def)
next
  assume a: "subject_tag m = ''tag'' \<and> msg_getitem msg ''Subject'' = Some ''[tag] original''"
  then have p: "prefix (''['' @ subject_tag m @ ''] '') ''[tag] original''" by simp
  from a have "msg_getitem msg ''subject'' = Some ''[tag] original''"
    by (simp add: msg_getitem_Subject)
  with p munge_header_subject_cases [OF dom, of lib msg] obtain msg' where
    m1: "munge_header lib m msg = Inr msg'" and
    g: "msg_get_all msg' ''Subject'' = msg_get_all msg ''Subject''"
    by (auto simp: Let_def)
  from g a have "msg_getitem msg' ''Subject'' = Some ''[tag] original''"
    by (simp add: msg_getitem_get_all)
  with m1 g show "\<exists>msg'. munge_header lib m msg = Inr msg' \<and>
                msg_getitem msg' ''Subject'' = Some ''[tag] original'' \<and>
                msg_get_all msg' ''Subject'' = msg_get_all msg ''Subject''"
    by blast
qed

theorem subject_tagging_idempotent_witness:
  "\<exists>msg'. munge_header example_lib example_accumulator example_message = Inr msg'
      \<and> msg_getitem example_message ''Subject'' = Some ''[tag] original''
      \<and> msg_getitem msg' ''Subject'' = Some ''[tag] original''"
proof -
  have t: "subject_tag example_accumulator = ''tag''"
    by (simp add: example_accumulator_def SetMessage_init_def)
  have s: "msg_getitem example_message ''Subject'' = Some ''[tag] original''"
    by code_simp
  from subject_tagging_idempotent [OF example_domain', of example_message example_lib] t s
  show ?thesis by blast
qed

section \<open>Dispatch\<close>

lemma config_has_option_get:
  "config_has_option cfg s opt \<longleftrightarrow> (\<exists>v. config_get cfg s opt = Inr v)"
  by (auto simp: config_has_option_def config_get_def split: option.splits)

lemma add_archive_eq:
  "add_archive cfg r w =
     Inr (w\<lparr>heap := (case config_get cfg ''outgoing'' ''archive_addr'' of
                        Inl e \<Rightarrow> heap w
                      | Inr a \<Rightarrow> (heap w)(r := heap w r \<union> {a}))\<rparr>)"
  by (auto simp: add_archive_def config_has_option_def config_get_def split: option.splits)

lemma munge_header_msg_parser:
  "munge_header lib (m\<lparr>msg_parser := x\<rparr>) msg = munge_header lib m msg"
  by (simp add: munge_header_def Let_def split: sum.splits)

lemma eomReceived_sends:
  assumes "msg_parser m = Some buf"
    and "munge_header lib m (feedparser_close lib buf) = Inr msg'"
    and "config_get (config m) ''outgoing'' ''server'' = Inr server"
    and "config_getint (config m) ''outgoing'' ''port'' = Inr port"
    and "config_get (config m) ''outgoing'' ''envelope_sender'' = Inr sender"
    and "h = (case config_get (config m) ''outgoing'' ''archive_addr'' of
                Inl e \<Rightarrow> heap w
              | Inr a \<Rightarrow> (heap w)(recipient_set m := heap w (recipient_set m) \<union> {a}))"
  shows "eomReceived lib m w =
     (Inr \<lparr>d_call = length (sent w), callbacks = [Success (address m)],
           errbacks = [Failure (address m)]\<rparr>,
      m\<lparr>msg_parser := None\<rparr>,
      w\<lparr>heap := h,
        log := log w @ [Log_Subject (msg_getitem msg' ''Subject''),
                        Sending_to (h (recipient_set m))],
        sent := sent w @
          [\<lparr>sc_server = server, sc_envelope_sender = sender,
            sc_recipients_ref = recipient_set m, sc_recipients = h (recipient_set m),
            sc_text = as_string lib msg', sc_port = port\<rparr>]\<rparr>)"
  using assms
  by (simp add: eomReceived_def Let_def munge_header_msg_parser add_archive_eq)

lemma eomReceived_heap:
  assumes "msg_parser m = Some buf"
    and "munge_header lib m (feedparser_close lib buf) = Inr msg'"
  shows "heap (snd (snd (eomReceived lib m w))) =
           (case config_get (config m) ''outgoing'' ''archive_addr'' of
                Inl e \<Rightarrow> heap w
              | Inr a \<Rightarrow> (heap w)(recipient_set m := heap w (recipient_set m) \<union> {a}))
       \<and> recipient_set (fst (snd (eomReceived lib m w))) = recipient_set m"
  using assms
  by (simp add: eomReceived_def Let_def munge_header_msg_parser add_archive_eq split: sum.splits)

lemma example_accumulator_open: "msg_parser example_accumulator = Some []"
  by (simp add: example_accumulator_def SetMessage_init_def)

lemma example_accumulator_config: "config example_accumulator = example_config"
  by (simp add: example_accumulator_def SetMessage_init_def)

lemma example_accumulator_set: "recipient_set example_accumulator = 0"
  by (simp add: example_accumulator_def SetMessage_init_def)

lemma example_server: "config_get example_config ''outgoing'' ''server'' = Inr ''smtp.example.com''"
  by code_simp

lemma example_port: "config_getint example_config ''outgoing'' ''port'' = Inr 25"
  by code_simp

lemma example_sender:
  "config_get example_config ''outgoing'' ''envelope_sender'' = Inr ''bounce@lists.example.com''"
  by code_simp

lemma example_archive:
  "config_get example_config ''outgoing'' ''archive_addr'' = Inr ''archive@x.com''"
  by code_simp

lemma example_heap: "heap example_world 0 = {''a@x.com'', ''b@x.com''}"
  by (simp add: example_world_def)

lemma example_no_archive_facts:
  "recipient_set example_accumulator_no_archive = recipient_set example_accumulator"
  "msg_parser example_accumulator_no_archive = Some []"
  "config_get (config example_accumulator_no_archive) ''incoming'' ''domain'' = Inr ''lists.example.com''"
  "config_get (config example_accumulator_no_archive) ''outgoing'' ''server'' = Inr ''smtp.example.com''"
  "config_getint (config example_accumulator_no_archive) ''outgoing'' ''port'' = Inr 25"
  "config_get (config example_accumulator_no_archive) ''outgoing'' ''envelope_sender'' = Inr ''bounce@lists.example.com''"
  "config_has_option (config example_accumulator_no_archive) ''outgoing'' ''archive_addr'' = False"
  by code_simp+

lemma msg_get_all_Precedence: "msg_get_all msg ''Precedence'' = msg_get_all msg ''precedence''"
  by (simp add: msg_get_all_def lower_names)

lemma cafe_fails:
  "SubjectPrefix_process (header_encodable example_lib) (''['' @ subject_tag example_accumulator @ ''] '')
      example_message_cafe = Inl UnicodeError"
  by code_simp

text \<open>
  Claim C5. A dispatch of an open accumulator under a complete outgoing configuration
  calls \<open>sendmail\<close> once. With \<open>outgoing.archive_addr\<close> configured the recipients passed
  are the resolved set united with the archive address; without it they are the
  resolved set. For the archive address \<open>archive@x.com\<close> and the resolved set of
  \<open>a@x.com\<close> and \<open>b@x.com\<close> the call has three recipients, the archive address among them.
\<close>

theorem eomReceived_sends_to_recipients_and_archive:
  assumes opn: "msg_parser m = Some buf"
    and dom: "config_get (config m) ''incoming'' ''domain'' = Inr d"
    and srv: "config_get (config m) ''outgoing'' ''server'' = Inr server"
    and prt: "config_getint (config m) ''outgoing'' ''port'' = Inr port"
    and snd: "config_get (config m) ''outgoing'' ''envelope_sender'' = Inr sender"
  shows "\<exists>dfr m' w' call.
      eomReceived lib m w = (Inr dfr, m', w')
    \<and> sent w' = sent w @ [call]
    \<and> (config_has_option (config m) ''outgoing'' ''archive_addr'' \<longrightarrow>
         (\<exists>a. config_get (config m) ''outgoing'' ''archive_addr'' = Inr a \<and>
              sc_recipients call = heap w (recipient_set m) \<union> {a}))
    \<and> (\<not> config_has_option (config m) ''outgoing'' ''archive_addr'' \<longrightarrow>
         sc_recipients call = heap w (recipient_set m))
    \<and> (config_get (config m) ''outgoing'' ''archive_addr'' = Inr ''archive@x.com'' \<and>
       heap w (recipient_set m) = {''a@x.com'', ''b@x.com''} \<longrightarrow>
         card (sc_recipients call) = 3 \<and> ''archive@x.com'' \<in> sc_recipients call)"
proof -
  from munge_header_list_values [OF dom, of lib "feedparser_close lib buf"] obtain msg' where
    mg: "munge_header lib m (feedparser_close lib buf) = Inr msg'"
    by blast
  define h where "h = (case config_get (config m) ''outgoing'' ''archive_addr'' of
                Inl e \<Rightarrow> heap w
              | Inr a \<Rightarrow> (heap w)(recipient_set m := heap w (recipient_set m) \<union> {a}))"
  define call where "call =
     \<lparr>sc_server = server, sc_envelope_sender = sender,
      sc_recipients_ref = recipient_set m, sc_recipients = h (recipient_set m),
      sc_text = as_string lib msg', sc_port = port\<rparr>"
  define dfr where "dfr = \<lparr>d_call = length (sent w), callbacks = [Success (address m)],
           errbacks = [Failure (address m)]\<rparr>"
  define w' where "w' = w\<lparr>heap := h,
        log := log w @ [Log_Subject (msg_getitem msg' ''Subject''),
                        Sending_to (h (recipient_set m))],
        sent := sent w @ [call]\<rparr>"
  have e: "eomReceived lib m w = (Inr dfr, m\<lparr>msg_parser := None\<rparr>, w')"
    unfolding dfr_def w'_def call_def
    by (rule eomReceived_sends [OF opn mg srv prt snd h_def])
  have s: "sent w' = sent w @ [call]"
    by (simp add: w'_def)
  have r: "sc_recipients call = h (recipient_set m)"
    by (simp add: call_def)
  have c1: "config_has_option (config m) ''outgoing'' ''archive_addr'' \<longrightarrow>
         (\<exists>a. config_get (config m) ''outgoing'' ''archive_addr'' = Inr a \<and>
              sc_recipients call = heap w (recipient_set m) \<union> {a})"
    unfolding r h_def config_has_option_get by auto
  have c2: "\<not> config_has_option (config m) ''outgoing'' ''archive_addr'' \<longrightarrow>
         sc_recipients call = heap w (recipient_set m)"
    unfolding r h_def config_has_option_get by (auto split: sum.splits)
  have c3: "config_get (config m) ''outgoing'' ''archive_addr'' = Inr ''archive@x.com'' \<and>
       heap w (recipient_set m) = {''a@x.com'', ''b@x.com''} \<longrightarrow>
         card (sc_recipients call) = 3 \<and> ''archive@x.com'' \<in> sc_recipients call"
    unfolding r h_def by (auto)
  show ?thesis
    by (intro exI conjI) (rule e, rule s, rule c1, rule c2, rule c3)
qed

theorem eomReceived_sends_to_recipients_and_archive_witness:
  "\<exists>dfr m' w' call.
      eomReceived example_lib example_accumulator example_world = (Inr dfr, m', w')
    \<and> sent w' = sent example_world @ [call]
    \<and> card (sc_recipients call) = 3
    \<and> ''archive@x.com'' \<in> sc_recipients call"
proof -
  note cfg = example_accumulator_config
  have "\<exists>dfr m' w' call.
      eomReceived example_lib example_accumulator example_world = (Inr dfr, m', w')
    \<and> sent w' = sent example_world @ [call]
    \<and> (config_has_option (config example_accumulator) ''outgoing'' ''archive_addr'' \<longrightarrow>
         (\<exists>a. config_get (config example_accumulator) ''outgoing'' ''archive_addr'' = Inr a \<and>
              sc_recipients call = heap example_world (recipient_set example_accumulator) \<union> {a}))
    \<and> (\<not> config_has_option (config example_accumulator) ''outgoing'' ''archive_addr'' \<longrightarrow>
         sc_recipients call = heap example_world (recipient_set example_accumulator))
    \<and> (config_get (config example_accumulator) ''outgoing'' ''archive_addr'' = Inr ''archive@x.com'' \<and>
       heap example_world (recipient_set example_accumulator) = {''a@x.com'', ''b@x.com''} \<longrightarrow>
         card (sc_recipients call) = 3 \<and> ''archive@x.com'' \<in> sc_recipients call)"
    by (rule eomReceived_sends_to_recipients_and_archive
              [OF example_accumulator_open
                  example_domain [folded cfg] example_server [folded cfg]
                  example_port [folded cfg] example_sender [folded cfg]])
  then obtain dfr m' w' call where
    e: "eomReceived example_lib example_accumulator example_world = (Inr dfr, m', w')"
    and s: "sent w' = sent example_world @ [call]"
    and c: "config_get (config example_accumulator) ''outgoing'' ''archive_addr'' = Inr ''archive@x.com'' \<and>
       heap example_world (recipient_set example_accumulator) = {''a@x.com'', ''b@x.com''} \<longrightarrow>
         card (sc_recipients call) = 3 \<and> ''archive@x.com'' \<in> sc_recipients call"
    by (elim exE conjE) (rule that)
  have "config_get (config example_accumulator) ''outgoing'' ''archive_addr'' = Inr ''archive@x.com'' \<and>
       heap example_world (recipient_set example_accumulator) = {''a@x.com'', ''b@x.com''}"
    by (simp only: example_accumulator_config example_accumulator_set example_archive example_heap)
  with c have c': "card (sc_recipients call) = 3 \<and> ''archive@x.com'' \<in> sc_recipients call"
    by (rule mp)
  show ?thesis
    by (intro exI conjI) (rule e, rule s, rule conjunct1 [OF c'], rule conjunct2 [OF c'])
qed

text \<open>
  Claim C10. The archive address is added to the set object the accumulator was built
  with: after \<open>eomReceived\<close> the accumulator still refers to the same object, that
  object holds the archive address as well, and no other object has changed. Whoever
  shares the object sees it: another accumulator built on the same set sends to the
  archive address too, whatever its own configuration says about archiving.
\<close>

theorem eomReceived_updates_recipient_set_in_place:
  assumes opn: "msg_parser m = Some buf"
    and dom: "config_get (config m) ''incoming'' ''domain'' = Inr d"
    and arch: "config_get (config m) ''outgoing'' ''archive_addr'' = Inr a"
  shows "(let (res, m', w') = eomReceived lib m w in
            recipient_set m' = recipient_set m
          \<and> heap w' (recipient_set m) = heap w (recipient_set m) \<union> {a}
          \<and> (\<forall>r. r \<noteq> recipient_set m \<longrightarrow> heap w' r = heap w r)
          \<and> (\<forall>lib2 m2 buf2 d2 server port sender.
                recipient_set m2 = recipient_set m \<and>
                msg_parser m2 = Some buf2 \<and>
                config_get (config m2) ''incoming'' ''domain'' = Inr d2 \<and>
                config_get (config m2) ''outgoing'' ''server'' = Inr server \<and>
                config_getint (config m2) ''outgoing'' ''port'' = Inr port \<and>
                config_get (config m2) ''outgoing'' ''envelope_sender'' = Inr sender \<longrightarrow>
                (\<exists>dfr m2' w2' call.
                    eomReceived lib2 m2 w' = (Inr dfr, m2', w2') \<and>
                    sent w2' = sent w' @ [call] \<and>
                    sc_recipients_ref call = recipient_set m \<and>
                    a \<in> sc_recipients call)))"
proof -
  from munge_header_list_values [OF dom, of lib "feedparser_close lib buf"] obtain msg' where
    mg: "munge_header lib m (feedparser_close lib buf) = Inr msg'"
    by blast
  obtain res m' w' where e: "eomReceived lib m w = (res, m', w')"
    by (cases "eomReceived lib m w")
  from eomReceived_heap [OF opn mg, of w] e arch have
    h: "heap w' = (heap w)(recipient_set m := heap w (recipient_set m) \<union> {a})"
    and r: "recipient_set m' = recipient_set m"
    by simp_all
  have a1: "heap w' (recipient_set m) = heap w (recipient_set m) \<union> {a}"
    by (simp add: h)
  have a2: "\<forall>r. r \<noteq> recipient_set m \<longrightarrow> heap w' r = heap w r"
    by (simp add: h)
  have a3: "\<exists>dfr m2' w2' call.
                    eomReceived lib2 m2 w' = (Inr dfr, m2', w2') \<and>
                    sent w2' = sent w' @ [call] \<and>
                    sc_recipients_ref call = recipient_set m \<and>
                    a \<in> sc_recipients call"
    if c: "recipient_set m2 = recipient_set m \<and>
                msg_parser m2 = Some buf2 \<and>
                config_get (config m2) ''incoming'' ''domain'' = Inr d2 \<and>
                config_get (config m2) ''outgoing'' ''server'' = Inr server \<and>
                config_getint (config m2) ''outgoing'' ''port'' = Inr port \<and>
                config_get (config m2) ''outgoing'' ''envelope_sender'' = Inr sender"
    for lib2 m2 buf2 d2 server port sender
  proof -
    from c have rs: "recipient_set m2 = recipient_set m"
      and o2: "msg_parser m2 = Some buf2"
      and d2: "config_get (config m2) ''incoming'' ''domain'' = Inr d2"
      and s2: "config_get (config m2) ''outgoing'' ''server'' = Inr server"
      and p2: "config_getint (config m2) ''outgoing'' ''port'' = Inr port"
      and e2: "config_get (config m2) ''outgoing'' ''envelope_sender'' = Inr sender"
      by simp_all
    from munge_header_list_values [OF d2, of lib2 "feedparser_close lib2 buf2"] obtain msg2 where
      mg2: "munge_header lib2 m2 (feedparser_close lib2 buf2) = Inr msg2"
      by blast
    define h2 where "h2 = (case config_get (config m2) ''outgoing'' ''archive_addr'' of
                Inl e \<Rightarrow> heap w'
              | Inr a \<Rightarrow> (heap w')(recipient_set m2 := heap w' (recipient_set m2) \<union> {a}))"
    have in2: "a \<in> h2 (recipient_set m2)"
      by (simp add: h2_def h rs split: sum.splits)
    note e3 = eomReceived_sends [OF o2 mg2 s2 p2 e2 h2_def]
    show ?thesis
      apply (intro exI conjI)
         apply (rule e3)
        apply simp
       apply (simp add: rs)
      apply (simp add: in2)
      done
  qed
  show ?thesis
    unfolding e Let_def prod.case
    by (intro conjI) (rule r, rule a1, rule a2, (intro allI impI, rule a3, assumption))
qed

theorem eomReceived_updates_recipient_set_in_place_witness:
  "(let (res, m', w') = eomReceived example_lib example_accumulator example_world in
      heap example_world 0 = {''a@x.com'', ''b@x.com''}
    \<and> heap w' 0 = {''a@x.com'', ''b@x.com''} \<union> {''archive@x.com''}
    \<and> (\<exists>dfr m2' w2' call.
          eomReceived example_lib example_accumulator_no_archive w' = (Inr dfr, m2', w2') \<and>
          sent w2' = sent w' @ [call] \<and>
          sc_recipients_ref call = 0 \<and>
          ''archive@x.com'' \<in> sc_recipients call))"
proof -
  note cfg = example_accumulator_config
  obtain res m' w' where
    e: "eomReceived example_lib example_accumulator example_world = (res, m', w')"
    by (cases "eomReceived example_lib example_accumulator example_world")
  note t = eomReceived_updates_recipient_set_in_place
             [OF example_accumulator_open example_domain [folded cfg] example_archive [folded cfg],
              of example_lib example_world, unfolded e Let_def prod.case]
  from t have h: "heap w' 0 = {''a@x.com'', ''b@x.com''} \<union> {''archive@x.com''}"
    by (simp only: example_accumulator_set example_heap)
  from t have al: "\<forall>lib2 m2 buf2 d2 server port sender.
                recipient_set m2 = recipient_set example_accumulator \<and>
                msg_parser m2 = Some buf2 \<and>
                config_get (config m2) ''incoming'' ''domain'' = Inr d2 \<and>
                config_get (config m2) ''outgoing'' ''server'' = Inr server \<and>
                config_getint (config m2) ''outgoing'' ''port'' = Inr port \<and>
                config_get (config m2) ''outgoing'' ''envelope_sender'' = Inr sender \<longrightarrow>
                (\<exists>dfr m2' w2' call.
                    eomReceived lib2 m2 w' = (Inr dfr, m2', w2') \<and>
                    sent w2' = sent w' @ [call] \<and>
                    sc_recipients_ref call = recipient_set example_accumulator \<and>
                    ''archive@x.com'' \<in> sc_recipients call)"
    by (rule conjunct2 [OF conjunct2 [OF conjunct2]])
  have "\<exists>dfr m2' w2' call.
          eomReceived example_lib example_accumulator_no_archive w' = (Inr dfr, m2', w2') \<and>
          sent w2' = sent w' @ [call] \<and>
          sc_recipients_ref call = recipient_set example_accumulator \<and>
          ''archive@x.com'' \<in> sc_recipients call"
    by (rule al [rule_format]) (intro conjI, (rule example_no_archive_facts)+)
  then have al': "\<exists>dfr m2' w2' call.
          eomReceived example_lib example_accumulator_no_archive w' = (Inr dfr, m2', w2') \<and>
          sent w2' = sent w' @ [call] \<and>
          sc_recipients_ref call = 0 \<and>
          ''archive@x.com'' \<in> sc_recipients call"
    by (simp only: example_accumulator_set)
  show ?thesis
    unfolding e Let_def prod.case
    by (intro conjI) (rule example_heap, rule h, rule al')
qed

text \<open>
  Claim C8. When \<open>SubjectPrefix().process\<close> raises a \<open>UnicodeError\<close> or \<open>ValueError\<close>,
  \<open>_munge_header\<close> does not fail: the Subject headers stay as they were, \<open>Precedence\<close>
  is set unless present, \<open>List-Id\<close> and \<open>List-Post\<close> are set, and \<open>eomReceived\<close> passes
  the text of that message to \<open>sendmail\<close>.
\<close>

theorem munge_header_survives_encoding_failure:
  assumes fail: "SubjectPrefix_process (header_encodable lib) (''['' @ subject_tag m @ ''] '') msg = Inl e"
    and ve: "is_ValueError e"
    and dom: "config_get (config m) ''incoming'' ''domain'' = Inr d"
  shows "\<exists>msg'. munge_header lib m msg = Inr msg'
     \<and> msg_get_all msg' ''Subject'' = msg_get_all msg ''Subject''
     \<and> msg_get_all msg' ''Precedence'' =
          (if msg_contains msg ''precedence'' then msg_get_all msg ''Precedence'' else [''list''])
     \<and> msg_get_all msg' ''List-Id'' = [''<'' @ py_format (address m) @ ''.mailingset.'' @ d @ ''>'']
     \<and> msg_get_all msg' ''List-Post'' = [''<mailto:'' @ py_format (address m) @ ''@'' @ d @ ''>'']
     \<and> (\<forall>buf w server port sender.
           msg_parser m = Some buf \<and> feedparser_close lib buf = msg \<and>
           config_get (config m) ''outgoing'' ''server'' = Inr server \<and>
           config_getint (config m) ''outgoing'' ''port'' = Inr port \<and>
           config_get (config m) ''outgoing'' ''envelope_sender'' = Inr sender \<longrightarrow>
           (\<exists>dfr m' w' call. eomReceived lib m w = (Inr dfr, m', w') \<and>
               sent w' = sent w @ [call] \<and> sc_text call = as_string lib msg'))"
proof -
  define msg2 where "msg2 = (if \<not> msg_contains msg ''precedence''
                      then msg_setitem msg ''Precedence'' ''list'' else msg)"
  define msg' where "msg' =
     msg_setitem
       (msg_delitem
          (msg_setitem (msg_delitem msg2 ''list-id'') ''List-Id'' (list_id_value (address m) d))
          ''list-post'')
       ''List-Post'' (list_post_value (address m) d)"
  have mh: "munge_header lib m msg = Inr msg'"
    using fail ve dom by (simp add: munge_header_def Let_def msg'_def msg2_def)
  have s: "msg_get_all msg' ''Subject'' = msg_get_all msg ''Subject''"
    by (simp add: msg'_def msg2_def msg_get_all_setitem msg_get_all_delitem lower_names)
  have p: "msg_get_all msg' ''Precedence'' =
          (if msg_contains msg ''precedence'' then msg_get_all msg ''Precedence'' else [''list''])"
    by (simp add: msg'_def msg2_def msg_get_all_setitem msg_get_all_delitem lower_names
          msg_contains_get_all msg_get_all_Precedence)
  have li: "msg_get_all msg' ''List-Id'' = [''<'' @ py_format (address m) @ ''.mailingset.'' @ d @ ''>'']"
    by (simp add: msg'_def msg_get_all_setitem msg_get_all_delitem lower_names list_id_value_def)
  have lp: "msg_get_all msg' ''List-Post'' = [''<mailto:'' @ py_format (address m) @ ''@'' @ d @ ''>'']"
    by (simp add: msg'_def msg_get_all_setitem msg_get_all_delitem lower_names list_post_value_def)
  have snd: "\<exists>dfr m' w' call. eomReceived lib m w = (Inr dfr, m', w') \<and>
               sent w' = sent w @ [call] \<and> sc_text call = as_string lib msg'"
    if c: "msg_parser m = Some buf \<and> feedparser_close lib buf = msg \<and>
           config_get (config m) ''outgoing'' ''server'' = Inr server \<and>
           config_getint (config m) ''outgoing'' ''port'' = Inr port \<and>
           config_get (config m) ''outgoing'' ''envelope_sender'' = Inr sender"
    for buf w server port sender
  proof -
    from c have o: "msg_parser m = Some buf" and f: "feedparser_close lib buf = msg"
      and s1: "config_get (config m) ''outgoing'' ''server'' = Inr server"
      and p1: "config_getint (config m) ''outgoing'' ''port'' = Inr port"
      and e1: "config_get (config m) ''outgoing'' ''envelope_sender'' = Inr sender"
      by simp_all
    from mh f have mg: "munge_header lib m (feedparser_close lib buf) = Inr msg'" by simp
    note e3 = eomReceived_sends [OF o mg s1 p1 e1 refl]
    show ?thesis
      apply (intro exI conjI)
        apply (rule e3)
       apply simp
      apply simp
      done
  qed
  show ?thesis
    by (intro exI [where x = msg'] conjI) (rule mh, rule s, rule p, rule li, rule lp,
          (intro allI impI, rule snd, assumption))
qed

theorem munge_header_survives_encoding_failure_witness:
  "\<exists>msg'. munge_header example_lib example_accumulator example_message_cafe = Inr msg'
     \<and> msg_get_all example_message_cafe ''Subject'' = [''caf'' @ [CHR 0xC3, CHR 0xA9]]
     \<and> msg_get_all msg' ''Subject'' = [''caf'' @ [CHR 0xC3, CHR 0xA9]]
     \<and> msg_get_all msg' ''Precedence'' = [''list'']"
proof -
  note cfg = example_accumulator_config
  have v: "is_ValueError UnicodeError" by simp
  have s0: "msg_get_all example_message_cafe ''Subject'' = [''caf'' @ [CHR 0xC3, CHR 0xA9]]"
    by code_simp
  have p0: "msg_contains example_message_cafe ''precedence'' = False"
    by code_simp
  from munge_header_survives_encoding_failure [OF cafe_fails v example_domain [folded cfg]]
  obtain msg' where
    mh: "munge_header example_lib example_accumulator example_message_cafe = Inr msg'"
    and s: "msg_get_all msg' ''Subject'' = msg_get_all example_message_cafe ''Subject''"
    and p: "msg_get_all msg' ''Precedence'' =
          (if msg_contains example_message_cafe ''precedence''
           then msg_get_all example_message_cafe ''Precedence'' else [''list''])"
    by (elim exE conjE) (rule that)
  from s have s': "msg_get_all msg' ''Subject'' = [''caf'' @ [CHR 0xC3, CHR 0xA9]]"
    by (simp only: s0)
  from p have p': "msg_get_all msg' ''Precedence'' = [''list'']"
    by (simp only: p0 if_False)
  show ?thesis
    by (intro exI conjI) (rule mh, rule s0, rule s', rule p')
qed

end
